theory Spec2Isabelle
  imports Main "HOL-Library.Monad_Syntax"
begin

unbundle bit_operations_syntax

section \<open>Template parameters\<close>

text \<open>
  The B-tree is a family of C++ templates. One instantiation is described by a value of
  \<open>params\<close>: the key extractor \<open>params_type::key\<close>, the comparison functor class (its
  \<open>operator()\<close> and its default constructor), whether the key type is arithmetic, and the
  numbers the node layout is computed from. A functor \<^emph>\<open>instance\<close> is a value of type
  \<open>'c\<close> (the state of the functor object); a functor class derived from
  \<open>btree_key_compare_to_tag\<close> is \<open>Compare_To\<close>, any other one is \<open>Plain_Compare\<close>.
\<close>

datatype ('c, 'k) key_compare =
  Plain_Compare "'c \<Rightarrow> 'k \<Rightarrow> 'k \<Rightarrow> bool"
| Compare_To "'c \<Rightarrow> 'k \<Rightarrow> 'k \<Rightarrow> int"

record ('k, 'v, 'c) params =
  params_key :: "'v \<Rightarrow> 'k"
  compare_class :: "('c, 'k) key_compare"
  default_compare :: 'c
  key_is_arithmetic :: bool
  default_value :: 'v
  kTargetNodeSize :: nat
  kValueSize :: nat
  sizeof_pointer :: nat
  sizeof_field_type :: nat

text \<open>\<open>btree_is_key_compare_to<Compare>::value\<close>.\<close>

fun is_key_compare_to :: "('c, 'k) key_compare \<Rightarrow> bool" where
  "is_key_compare_to (Plain_Compare lt) = False"
| "is_key_compare_to (Compare_To c3) = True"

text \<open>
  \<open>btree_compare_keys(cmp, x, y)\<close>: \<open>cmp(x, y)\<close> for a plain functor,
  \<open>cmp(x, y) < 0\<close> for a compare-to functor.
\<close>

fun btree_compare_keys :: "('c, 'k) key_compare \<Rightarrow> 'c \<Rightarrow> 'k \<Rightarrow> 'k \<Rightarrow> bool" where
  "btree_compare_keys (Plain_Compare lt) cmp x y = lt cmp x y"
| "btree_compare_keys (Compare_To c3) cmp x y = (c3 cmp x y < 0)"

text \<open>
  \<open>btree_upper_bound_adapter\<close> turns a lower-bound comparison into an upper-bound one:
  \<open>upper(a, b) = !cmp(b, a)\<close>.
\<close>

definition btree_upper_bound_adapter :: "('k \<Rightarrow> 'k \<Rightarrow> bool) \<Rightarrow> 'k \<Rightarrow> 'k \<Rightarrow> bool" where
  "btree_upper_bound_adapter cmp a b = (\<not> cmp b a)"

subsection \<open>Node capacity\<close>

text \<open>
  \<open>sizeof(btree_base_fields)\<close> under the usual layout rule (every member aligned to its
  size, the struct padded to its largest alignment): a \<open>bool\<close>, three \<open>field_type\<close>
  counters and the parent pointer.
\<close>

definition align_up :: "nat \<Rightarrow> nat \<Rightarrow> nat" where
  "align_up n a = ((n + a - 1) div a) * a"

definition sizeof_base_fields :: "('k, 'v, 'c) params \<Rightarrow> nat" where
  "sizeof_base_fields P =
     (let fs = sizeof_field_type P; ps = sizeof_pointer P;
          off_position = align_up 1 fs;
          off_parent = align_up (off_position + 3 * fs) ps
      in off_parent + ps)"

text \<open>
  The enumerators of \<open>btree_node\<close>. The subtraction is done in \<open>size_t\<close>, an unsigned
  integer as wide as a pointer, so it wraps around when the target size is smaller than the
  base fields.
\<close>

definition size_t_modulus :: "('k, 'v, 'c) params \<Rightarrow> nat" where
  "size_t_modulus P = 2 ^ (8 * sizeof_pointer P)"

definition kNodeTargetValues :: "('k, 'v, 'c) params \<Rightarrow> nat" where
  "kNodeTargetValues P =
     ((kTargetNodeSize P + size_t_modulus P - sizeof_base_fields P mod size_t_modulus P)
        mod size_t_modulus P) div kValueSize P"

definition kNodeValues :: "('k, 'v, 'c) params \<Rightarrow> nat" where
  "kNodeValues P = (if kNodeTargetValues P \<ge> 3 then kNodeTargetValues P else 3)"

definition kMinNodeValues :: "('k, 'v, 'c) params \<Rightarrow> nat" where
  "kMinNodeValues P = kNodeValues P div 2"

definition kExactMatch :: int where
  "kExactMatch = push_bit 30 1"

definition kMatchMask :: int where
  "kMatchMask = kExactMatch - 1"

text \<open>
  \<open>btree_map_params<Key, Data, Compare, Alloc, TargetNodeSize>\<close> for a key of
  \<open>key_size\<close> bytes and mapped data of \<open>data_size\<close> bytes, with a plain \<open>less\<close>
  functor on an arithmetic key; \<open>node_count_type\<close> is \<open>uint16_t\<close> when
  \<open>kNodeValueSpace / ValueSize >= 256\<close> and \<open>uint8_t\<close> otherwise.
\<close>

definition node_count_type_size :: "nat \<Rightarrow> nat \<Rightarrow> nat \<Rightarrow> nat" where
  "node_count_type_size target value_size ps =
     (let m = 2 ^ (8 * ps);
          kNodeValueSpace = (target + m - (2 * ps) mod m) mod m
      in if kNodeValueSpace div value_size \<ge> 256 then 2 else 1)"

definition btree_map_params ::
  "nat \<Rightarrow> nat \<Rightarrow> nat \<Rightarrow> nat \<Rightarrow> ('k::{linorder, zero}, 'k \<times> 'd::zero, unit) params" where
  "btree_map_params key_size data_size target ps =
     \<lparr> params_key = fst,
       compare_class = Plain_Compare (\<lambda>_ a b. a < b),
       default_compare = (),
       key_is_arithmetic = True,
       default_value = (0, 0),
       kTargetNodeSize = target,
       kValueSize = key_size + data_size,
       sizeof_pointer = ps,
       sizeof_field_type = node_count_type_size target (key_size + data_size) ps \<rparr>"

section \<open>Nodes\<close>

text \<open>
  A node is addressed by a pointer; \<open>None\<close> is \<open>NULL\<close>. The record holds the fields of
  \<open>btree_root_fields\<close>: the base fields, the value array (\<open>max_count\<close> slots), the child
  pointers (\<open>kNodeValues + 1\<close> slots, internal nodes only), and \<open>rightmost\<close> and \<open>size\<close>
  (root only). The counters are \<open>field_type\<close> in the source and read as \<open>int\<close>; here they
  are natural numbers.
\<close>

type_synonym addr = nat

record 'v btree_node =
  leaf :: bool
  position :: nat
  max_count :: nat
  count :: nat
  parent :: "addr option"
  "values" :: "'v list"
  children :: "addr option list"
  rightmost :: "addr option"
  size :: int

text \<open>
  \<open>key(i)\<close>: the key of the value in slot \<open>i\<close>; reading outside the array has no result.
\<close>

definition key :: "('k, 'v, 'c) params \<Rightarrow> 'v btree_node \<Rightarrow> nat \<Rightarrow> 'k option" where
  "key P n i = (if i < length (values n) then Some (params_key P (values n ! i)) else None)"

subsection \<open>Searching a node\<close>

text \<open>
  The four searches of \<open>btree_node\<close> over the slots \<open>[s, e)\<close>. The plain ones take a
  boolean comparison, the compare-to ones a three-way comparison whose result is used by
  sign only. A compare-to search returns the position with \<open>kExactMatch\<close> or-ed in when it
  stopped on an equal key.
\<close>

function linear_search_plain_compare ::
  "('k, 'v, 'c) params \<Rightarrow> 'v btree_node \<Rightarrow> 'k \<Rightarrow> nat \<Rightarrow> nat \<Rightarrow> ('k \<Rightarrow> 'k \<Rightarrow> bool) \<Rightarrow> int option" where
  "linear_search_plain_compare P n k s e cmp =
     (if s < e then
        (case key P n s of
           None \<Rightarrow> None
         | Some ks \<Rightarrow>
             if \<not> cmp ks k then Some (int s)
             else linear_search_plain_compare P n k (s + 1) e cmp)
      else Some (int s))"
  by pat_completeness auto
termination
  by (relation "measure (\<lambda>(P, n, k, s, e, cmp). e - s)") auto

declare linear_search_plain_compare.simps [simp del]

function linear_search_compare_to ::
  "('k, 'v, 'c) params \<Rightarrow> 'v btree_node \<Rightarrow> 'k \<Rightarrow> nat \<Rightarrow> nat \<Rightarrow> ('k \<Rightarrow> 'k \<Rightarrow> int) \<Rightarrow> int option" where
  "linear_search_compare_to P n k s e cmp =
     (if s < e then
        (case key P n s of
           None \<Rightarrow> None
         | Some ks \<Rightarrow>
             let c = cmp ks k in
             if c = 0 then Some (int s OR kExactMatch)
             else if c > 0 then Some (int s)
             else linear_search_compare_to P n k (s + 1) e cmp)
      else Some (int s))"
  by pat_completeness auto
termination
  by (relation "measure (\<lambda>(P, n, k, s, e, cmp). e - s)") auto

declare linear_search_compare_to.simps [simp del]

text \<open>
  The binary searches loop \<open>while (s != e)\<close>. Started with \<open>e < s\<close> the loop never
  exits (\<open>s > e\<close> is then invariant), so there is no result.
\<close>

function binary_search_plain_compare ::
  "('k, 'v, 'c) params \<Rightarrow> 'v btree_node \<Rightarrow> 'k \<Rightarrow> nat \<Rightarrow> nat \<Rightarrow> ('k \<Rightarrow> 'k \<Rightarrow> bool) \<Rightarrow> int option" where
  "binary_search_plain_compare P n k s e cmp =
     (if s = e then Some (int s)
      else if e < s then None
      else
        (let mid = (s + e) div 2 in
         case key P n mid of
           None \<Rightarrow> None
         | Some km \<Rightarrow>
             if cmp km k then binary_search_plain_compare P n k (mid + 1) e cmp
             else binary_search_plain_compare P n k s mid cmp))"
  by pat_completeness auto
termination
  by (relation "measure (\<lambda>(P, n, k, s, e, cmp). e - s)") auto

declare binary_search_plain_compare.simps [simp del]

function binary_search_compare_to ::
  "('k, 'v, 'c) params \<Rightarrow> 'v btree_node \<Rightarrow> 'k \<Rightarrow> nat \<Rightarrow> nat \<Rightarrow> ('k \<Rightarrow> 'k \<Rightarrow> int) \<Rightarrow> int option" where
  "binary_search_compare_to P n k s e cmp =
     (if s = e then Some (int s)
      else if e < s then None
      else
        (let mid = (s + e) div 2 in
         case key P n mid of
           None \<Rightarrow> None
         | Some km \<Rightarrow>
             let c = cmp km k in
             if c < 0 then binary_search_compare_to P n k (mid + 1) e cmp
             else if c > 0 then binary_search_compare_to P n k s mid cmp
             else
               (case binary_search_compare_to P n k s mid cmp of
                  None \<Rightarrow> None
                | Some s' \<Rightarrow> Some (s' OR kExactMatch))))"
  by pat_completeness auto
termination
  by (relation "measure (\<lambda>(P, n, k, s, e, cmp). e - s)") auto

declare binary_search_compare_to.simps [simp del]

text \<open>
  The dispatch helpers of \<open>btree_compare.h\<close>. \<open>search_type\<close> is linear for an arithmetic
  key and binary otherwise, in the compare-to flavour when the functor class is compare-to.
  \<open>btree_binary_search_compare_to::lower_bound\<close> passes \<open>CompareTo()\<close>, a
  default-constructed functor, where the other helpers pass \<open>cmp\<close>.
\<close>

definition node_lower_bound ::
  "('k, 'v, 'c) params \<Rightarrow> 'v btree_node \<Rightarrow> 'k \<Rightarrow> 'c \<Rightarrow> int option" where
  "node_lower_bound P n k cmp =
     (case compare_class P of
        Plain_Compare lt \<Rightarrow>
          if key_is_arithmetic P
          then linear_search_plain_compare P n k 0 (count n) (lt cmp)
          else binary_search_plain_compare P n k 0 (count n) (lt cmp)
      | Compare_To c3 \<Rightarrow>
          if key_is_arithmetic P
          then linear_search_compare_to P n k 0 (count n) (c3 cmp)
          else binary_search_compare_to P n k 0 (count n) (c3 (default_compare P)))"

definition node_upper_bound ::
  "('k, 'v, 'c) params \<Rightarrow> 'v btree_node \<Rightarrow> 'k \<Rightarrow> 'c \<Rightarrow> int option" where
  "node_upper_bound P n k cmp =
     (case compare_class P of
        Plain_Compare lt \<Rightarrow>
          if key_is_arithmetic P
          then linear_search_plain_compare P n k 0 (count n)
                 (btree_upper_bound_adapter (lt cmp))
          else binary_search_plain_compare P n k 0 (count n)
                 (btree_upper_bound_adapter (lt cmp))
      | Compare_To c3 \<Rightarrow>
          linear_search_plain_compare P n k 0 (count n)
            (btree_upper_bound_adapter (\<lambda>x y. c3 cmp x y < 0)))"

section \<open>The node store\<close>

text \<open>
  Nodes live in a store from addresses to node records; a tree owns its nodes, so every
  tree carries its own store. A function that reads or writes through a pointer that is
  \<open>NULL\<close> or not allocated, or outside an array, has no result (\<open>None\<close>); so has one
  whose loop does not end. Stores to a counter are natural numbers: a store of a negative
  number has no result either. The \<open>assert\<close> macro is live in the source
  (\<open><assert.h>\<close> is included before \<open>NDEBUG\<close> is defined), so a failed assertion
  aborts the program: it has no result.
\<close>

type_synonym 'v heap = "addr \<Rightarrow> 'v btree_node option"

text \<open>A \<open>for\<close> loop over the listed indices, stopping at the first step without result.\<close>

fun for_loop :: "nat list \<Rightarrow> (nat \<Rightarrow> 's \<Rightarrow> 's option) \<Rightarrow> 's \<Rightarrow> 's option" where
  "for_loop [] body s = Some s"
| "for_loop (i # js) body s =
     (case body i s of None \<Rightarrow> None | Some s' \<Rightarrow> for_loop js body s')"

definition update_node :: "'v heap \<Rightarrow> addr \<Rightarrow> ('v btree_node \<Rightarrow> 'v btree_node) \<Rightarrow> 'v heap option" where
  "update_node h a f = (case h a of None \<Rightarrow> None | Some n \<Rightarrow> Some (h(a \<mapsto> f n)))"

definition set_position :: "'v heap \<Rightarrow> addr \<Rightarrow> nat \<Rightarrow> 'v heap option" where
  "set_position h a v = update_node h a (\<lambda>n. n\<lparr>position := v\<rparr>)"

definition set_count :: "'v heap \<Rightarrow> addr \<Rightarrow> nat \<Rightarrow> 'v heap option" where
  "set_count h a v = update_node h a (\<lambda>n. n\<lparr>count := v\<rparr>)"

text \<open>
  \<open>value_init(i)\<close> default-constructs slot \<open>i\<close>, \<open>value_init(i, x)\<close> copies \<open>x\<close> into
  it, \<open>value_destroy(i)\<close> runs the destructor (the slot keeps its stale content), and
  \<open>value_swap(i, x, j)\<close> exchanges slot \<open>i\<close> of this node with slot \<open>j\<close> of node \<open>x\<close>.
\<close>

definition value_init :: "'v heap \<Rightarrow> addr \<Rightarrow> nat \<Rightarrow> 'v \<Rightarrow> 'v heap option" where
  "value_init h a i x =
     (case h a of
        None \<Rightarrow> None
      | Some n \<Rightarrow>
          if i < length (values n) then Some (h(a \<mapsto> n\<lparr>values := (values n)[i := x]\<rparr>))
          else None)"

definition value_destroy :: "'v heap \<Rightarrow> addr \<Rightarrow> nat \<Rightarrow> 'v heap option" where
  "value_destroy h a i =
     (case h a of
        None \<Rightarrow> None
      | Some n \<Rightarrow> if i < length (values n) then Some h else None)"

definition value_swap :: "'v heap \<Rightarrow> addr \<Rightarrow> nat \<Rightarrow> addr \<Rightarrow> nat \<Rightarrow> 'v heap option" where
  "value_swap h a i x j =
     (case (h a, h x) of
        (Some na, Some nx) \<Rightarrow>
          if i < length (values na) \<and> j < length (values nx) then
            do {
              h1 \<leftarrow> value_init h a i (values nx ! j);
              value_init h1 x j (values na ! i)
            }
          else None
      | _ \<Rightarrow> None)"

text \<open>
  The insert functions take the new value as \<open>const value_type &\<close>. Such a reference
  denotes either an object outside the node store, which the tree never touches, or a
  value slot of a node of the store (as in \<open>t.insert(*t.begin())\<close>). The tree reads
  through the reference only when it constructs the new value, in \<open>insert_value\<close>;
  \<open>read_ref\<close> is that read. Reading a slot of a node that has been deallocated, or a
  slot that holds no value any more (its index is not below \<open>count\<close>), has no result.
\<close>

datatype 'v value_ref = Outside 'v | Slot addr nat

definition read_ref :: "'v heap \<Rightarrow> 'v value_ref \<Rightarrow> 'v option" where
  "read_ref h r =
     (case r of
        Outside v \<Rightarrow> Some v
      | Slot a i \<Rightarrow>
          (case h a of
             None \<Rightarrow> None
           | Some n \<Rightarrow>
               if i < count n \<and> i < length (values n) then Some (values n ! i) else None))"

text \<open>
  \<open>child(i)\<close> reads a child pointer (which may be \<open>NULL\<close>), \<open>*mutable_child(i) = c\<close>
  stores one, and \<open>set_child(i, c)\<close> stores it and makes this node the parent of \<open>c\<close>.
\<close>

definition child :: "'v heap \<Rightarrow> addr \<Rightarrow> nat \<Rightarrow> addr option option" where
  "child h a i =
     (case h a of
        None \<Rightarrow> None
      | Some n \<Rightarrow> if i < length (children n) then Some (children n ! i) else None)"

definition assign_child :: "'v heap \<Rightarrow> addr \<Rightarrow> nat \<Rightarrow> addr option \<Rightarrow> 'v heap option" where
  "assign_child h a i c =
     (case h a of
        None \<Rightarrow> None
      | Some n \<Rightarrow>
          if i < length (children n) then Some (h(a \<mapsto> n\<lparr>children := (children n)[i := c]\<rparr>))
          else None)"

definition set_child :: "'v heap \<Rightarrow> addr \<Rightarrow> nat \<Rightarrow> addr option \<Rightarrow> 'v heap option" where
  "set_child h a i c =
     (case c of
        None \<Rightarrow> None
      | Some ca \<Rightarrow>
          do {
            h1 \<leftarrow> assign_child h a i (Some ca);
            update_node h1 ca (\<lambda>n. n\<lparr>parent := Some a, position := i\<rparr>)
          })"

text \<open>
  \<open>insert_value(i, x)\<close> asserts \<open>i <= count()\<close>; the new value is constructed in slot
  \<open>count\<close> and swapped down to slot \<open>i\<close>; an internal node also shifts the child pointers
  behind \<open>i + 1\<close> and leaves \<open>children[i + 1]\<close> null. The argument \<open>x\<close> is a reference
  in the source and is read by the first statement behind the assertion, so the callers
  read it immediately before the call.
\<close>

definition insert_value :: "'v heap \<Rightarrow> addr \<Rightarrow> nat \<Rightarrow> 'v \<Rightarrow> 'v heap option" where
  "insert_value h a i x =
     (case h a of
        None \<Rightarrow> None
      | Some n \<Rightarrow>
          if count n < i then None
          else
          do {
            h1 \<leftarrow> value_init h a (count n) x;
            h2 \<leftarrow> for_loop (rev [i + 1 ..< count n + 1]) (\<lambda>j h. value_swap h a j a (j - 1)) h1;
            h3 \<leftarrow> set_count h2 a (count n + 1);
            if \<not> leaf n then
              do {
                h4 \<leftarrow> for_loop (rev [i + 2 ..< count n + 2])
                       (\<lambda>j h. do {
                          c \<leftarrow> child h a (j - 1);
                          h' \<leftarrow> assign_child h a j c;
                          (case c of None \<Rightarrow> None | Some ca \<Rightarrow> set_position h' ca j)
                        }) h3;
                assign_child h4 a (i + 1) None
              }
            else Some h3
          })"

text \<open>
  \<open>remove_value(i)\<close>: an internal node first asserts that \<open>child(i + 1)\<close> is empty and
  shifts the child pointers behind \<open>i + 1\<close> down; then the count drops and the value is
  swapped up to the last slot and destroyed.
\<close>

definition remove_value :: "'v heap \<Rightarrow> addr \<Rightarrow> nat \<Rightarrow> 'v heap option" where
  "remove_value h a i =
     (case h a of
        None \<Rightarrow> None
      | Some n \<Rightarrow>
          do {
            h1 \<leftarrow> (if \<not> leaf n then
                    do {
                      c0 \<leftarrow> child h a (i + 1);
                      a0 \<leftarrow> c0;
                      n0 \<leftarrow> h a0;
                      if count n0 \<noteq> 0 then None
                      else
                        do {
                          h' \<leftarrow> for_loop [i + 1 ..< count n]
                                 (\<lambda>j h. do {
                                    c \<leftarrow> child h a (j + 1);
                                    h' \<leftarrow> assign_child h a j c;
                                    (case c of None \<Rightarrow> None | Some ca \<Rightarrow> set_position h' ca j)
                                  }) h;
                          assign_child h' a (count n) None
                        }
                    }
                  else Some h);
            h2 \<leftarrow> (if count n = 0 then None else set_count h1 a (count n - 1));
            h3 \<leftarrow> for_loop [i ..< count n - 1] (\<lambda>j h. value_swap h a j a (j + 1)) h2;
            value_destroy h3 a (max i (count n - 1))
          })"

text \<open>
  \<open>rebalance_right_to_left(src, to_move)\<close>, called on the left sibling: the delimiter in
  the parent comes down to the end of this node, value \<open>to_move - 1\<close> of \<open>src\<close> goes up
  as the new delimiter, and the \<open>to_move - 1\<close> values before it follow into this node.
  The five assertions at the head of the function are the first test; the loop that shifts
  the child pointers of \<open>src\<close> asserts \<open>i + to_move <= src->max_count()\<close>.
\<close>

definition rebalance_right_to_left ::
  "('k, 'v, 'c) params \<Rightarrow> 'v heap \<Rightarrow> addr \<Rightarrow> addr \<Rightarrow> nat \<Rightarrow> 'v heap option" where
  "rebalance_right_to_left P h a src to_move =
     (case (h a, h src) of
        (Some n, Some ns) \<Rightarrow>
          (case parent n of
             None \<Rightarrow> None
           | Some p \<Rightarrow>
               if parent ns \<noteq> Some p \<or> position n + 1 \<noteq> position ns \<or> count ns < count n
                  \<or> to_move < 1 \<or> count ns < to_move then None
               else
                 do {
                   h1 \<leftarrow> for_loop [0 ..< to_move]
                          (\<lambda>i h. value_init h a (i + count n) (default_value P)) h;
                   h2 \<leftarrow> value_swap h1 a (count n) p (position n);
                   h3 \<leftarrow> value_swap h2 p (position n) src (to_move - 1);
                   h4 \<leftarrow> for_loop [1 ..< to_move]
                          (\<lambda>i h. value_swap h a (count n + i) src (i - 1)) h3;
                   h5 \<leftarrow> for_loop [to_move ..< count ns]
                          (\<lambda>i h. value_swap h src (i - to_move) src i) h4;
                   h6 \<leftarrow> for_loop [1 ..< to_move + 1]
                          (\<lambda>i h. value_destroy h src (count ns - i)) h5;
                   h7 \<leftarrow> (if \<not> leaf n then
                           do {
                             h' \<leftarrow> for_loop [0 ..< to_move]
                                    (\<lambda>i h. do {
                                       c \<leftarrow> child h src i;
                                       set_child h a (1 + count n + i) c
                                     }) h6;
                             for_loop [0 ..< count ns - to_move + 1]
                               (\<lambda>i h.
                                  if max_count ns < i + to_move then None
                                  else
                                    do {
                                      c \<leftarrow> child h src (i + to_move);
                                      h'' \<leftarrow> set_child h src i c;
                                      assign_child h'' src (i + to_move) None
                                    }) h'
                           }
                         else Some h6);
                   h8 \<leftarrow> set_count h7 a (count n + to_move);
                   set_count h8 src (count ns - to_move)
                 })
      | _ \<Rightarrow> None)"

text \<open>
  \<open>rebalance_left_to_right(dest, to_move)\<close>, called on the left sibling: the values of
  \<open>dest\<close> make room, the delimiter comes down into \<open>dest\<close>, value \<open>count - to_move\<close>
  of this node goes up, and the values behind it follow into \<open>dest\<close>. The five
  assertions at the head of the function are the first test.
\<close>

definition rebalance_left_to_right ::
  "('k, 'v, 'c) params \<Rightarrow> 'v heap \<Rightarrow> addr \<Rightarrow> addr \<Rightarrow> nat \<Rightarrow> 'v heap option" where
  "rebalance_left_to_right P h a dest to_move =
     (case (h a, h dest) of
        (Some n, Some nd) \<Rightarrow>
          (case parent n of
             None \<Rightarrow> None
           | Some p \<Rightarrow>
               if parent nd \<noteq> Some p \<or> position n + 1 \<noteq> position nd \<or> count n < count nd
                  \<or> to_move < 1 \<or> count n < to_move then None
               else
                 do {
                   h1 \<leftarrow> for_loop [0 ..< to_move]
                          (\<lambda>i h. value_init h dest (i + count nd) (default_value P)) h;
                   h2 \<leftarrow> for_loop (rev [0 ..< count nd])
                          (\<lambda>i h. value_swap h dest i dest (i + to_move)) h1;
                   h3 \<leftarrow> value_swap h2 dest (to_move - 1) p (position n);
                   h4 \<leftarrow> value_swap h3 p (position n) a (count n - to_move);
                   h5 \<leftarrow> value_destroy h4 a (count n - to_move);
                   h6 \<leftarrow> for_loop [1 ..< to_move]
                          (\<lambda>i h. do {
                             h' \<leftarrow> value_swap h a (count n - to_move + i) dest (i - 1);
                             value_destroy h' a (count n - to_move + i)
                           }) h5;
                   h7 \<leftarrow> (if \<not> leaf n then
                           do {
                             h' \<leftarrow> for_loop (rev [0 ..< count nd + 1])
                                    (\<lambda>i h. do {
                                       c \<leftarrow> child h dest i;
                                       h'' \<leftarrow> set_child h dest (i + to_move) c;
                                       assign_child h'' dest i None
                                     }) h6;
                             for_loop [1 ..< to_move + 1]
                               (\<lambda>i h. do {
                                  c \<leftarrow> child h a (count n - to_move + i);
                                  h'' \<leftarrow> set_child h dest (i - 1) c;
                                  assign_child h'' a (count n - to_move + i) None
                                }) h'
                           }
                         else Some h6);
                   h8 \<leftarrow> set_count h7 a (count n - to_move);
                   set_count h8 dest (count nd + to_move)
                 })
      | _ \<Rightarrow> None)"

text \<open>
  \<open>split(dest, insert_position)\<close>: \<open>dest\<close> is the new right sibling, asserted to be
  empty; the node is asserted to keep at least one value. The split is
  biased by the insert position: inserting at the front leaves one value here, inserting
  at the very end moves nothing, otherwise half of the values move. The largest value
  left in this node then goes up into the parent as the delimiter.
\<close>

definition split :: "('k, 'v, 'c) params \<Rightarrow> 'v heap \<Rightarrow> addr \<Rightarrow> addr \<Rightarrow> int \<Rightarrow> 'v heap option" where
  "split P h a dest insert_position =
     (case (h a, h dest) of
        (Some n, Some nd) \<Rightarrow>
          (case parent n of
             None \<Rightarrow> None
           | Some p \<Rightarrow>
               let dc = (if insert_position = 0 then count n - 1
                         else if insert_position = int (max_count n) then 0
                         else count n div 2);
                   c1 = count n - dc
               in
               if count nd \<noteq> 0 \<or> count n = 0 \<or> c1 = 0 then None
               else
                 do {
                   h1 \<leftarrow> set_count h dest dc;
                   h2 \<leftarrow> set_count h1 a c1;
                   h3 \<leftarrow> for_loop [0 ..< dc]
                          (\<lambda>i h. do {
                             h' \<leftarrow> value_init h dest i (default_value P);
                             h'' \<leftarrow> value_swap h' a (c1 + i) dest i;
                             value_destroy h'' a (c1 + i)
                           }) h2;
                   h4 \<leftarrow> set_count h3 a (c1 - 1);
                   h5 \<leftarrow> insert_value h4 p (position n) (default_value P);
                   h6 \<leftarrow> value_swap h5 a (c1 - 1) p (position n);
                   h7 \<leftarrow> value_destroy h6 a (c1 - 1);
                   h8 \<leftarrow> set_child h7 p (position n + 1) (Some dest);
                   if \<not> leaf n then
                     for_loop [0 ..< dc + 1]
                       (\<lambda>i h. do {
                          c \<leftarrow> child h a (c1 - 1 + i + 1);
                          h' \<leftarrow> set_child h dest i c;
                          assign_child h' a (c1 - 1 + i + 1) None
                        }) h8
                   else Some h8
                 })
      | _ \<Rightarrow> None)"

text \<open>
  \<open>merge(src)\<close>, called on the left sibling (which the two assertions at the head of
  the function test): the delimiter comes down, the values and children of \<open>src\<close>
  follow, and the delimiter is removed from the parent.
\<close>

definition merge :: "('k, 'v, 'c) params \<Rightarrow> 'v heap \<Rightarrow> addr \<Rightarrow> addr \<Rightarrow> 'v heap option" where
  "merge P h a src =
     (case (h a, h src) of
        (Some n, Some ns) \<Rightarrow>
          (case parent n of
             None \<Rightarrow> None
           | Some p \<Rightarrow>
               if parent ns \<noteq> Some p \<or> position n + 1 \<noteq> position ns then None
               else
               do {
                 h1 \<leftarrow> value_init h a (count n) (default_value P);
                 h2 \<leftarrow> value_swap h1 a (count n) p (position n);
                 h3 \<leftarrow> for_loop [0 ..< count ns]
                        (\<lambda>i h. do {
                           h' \<leftarrow> value_init h a (1 + count n + i) (default_value P);
                           h'' \<leftarrow> value_swap h' a (1 + count n + i) src i;
                           value_destroy h'' src i
                         }) h2;
                 h4 \<leftarrow> (if \<not> leaf n then
                         for_loop [0 ..< count ns + 1]
                           (\<lambda>i h. do {
                              c \<leftarrow> child h src i;
                              h' \<leftarrow> set_child h a (1 + count n + i) c;
                              assign_child h' src i None
                            }) h3
                       else Some h3);
                 h5 \<leftarrow> set_count h4 a (1 + count n + count ns);
                 h6 \<leftarrow> set_count h5 src 0;
                 remove_value h6 p (position n)
               })
      | _ \<Rightarrow> None)"

text \<open>
  \<open>swap(x)\<close> exchanges the values, the child pointers and the counts of two nodes,
  asserted to be of the same kind, and makes each node the parent of the children it
  received. The parent loops run before the counts are exchanged.
\<close>

definition set_parent :: "'v heap \<Rightarrow> addr option \<Rightarrow> addr \<Rightarrow> 'v heap option" where
  "set_parent h c p =
     (case c of None \<Rightarrow> None | Some ca \<Rightarrow> update_node h ca (\<lambda>n. n\<lparr>parent := Some p\<rparr>))"

definition swap :: "('k, 'v, 'c) params \<Rightarrow> 'v heap \<Rightarrow> addr \<Rightarrow> addr \<Rightarrow> 'v heap option" where
  "swap P h a x =
     (case (h a, h x) of
        (Some n, Some nx) \<Rightarrow>
          if leaf n \<noteq> leaf nx then None
          else
          do {
            h1 \<leftarrow> for_loop [count n ..< count nx]
                   (\<lambda>i h. value_init h a i (default_value P)) h;
            h2 \<leftarrow> for_loop [count nx ..< count n]
                   (\<lambda>i h. value_init h x i (default_value P)) h1;
            h3 \<leftarrow> for_loop [0 ..< max (count n) (count nx)]
                   (\<lambda>i h. value_swap h a i x i) h2;
            h4 \<leftarrow> for_loop [count n ..< count nx] (\<lambda>i h. value_destroy h x i) h3;
            h5 \<leftarrow> for_loop [count nx ..< count n] (\<lambda>i h. value_destroy h a i) h4;
            h6 \<leftarrow> (if \<not> leaf n then
                    do {
                      h' \<leftarrow> for_loop [0 ..< max (count n) (count nx) + 1]
                             (\<lambda>i h. do {
                                ca \<leftarrow> child h a i;
                                cx \<leftarrow> child h x i;
                                h'' \<leftarrow> assign_child h a i cx;
                                assign_child h'' x i ca
                              }) h5;
                      h'' \<leftarrow> for_loop [0 ..< count n + 1]
                              (\<lambda>i h. do { c \<leftarrow> child h x i; set_parent h c x }) h';
                      for_loop [0 ..< count nx + 1]
                        (\<lambda>i h. do { c \<leftarrow> child h a i; set_parent h c a }) h''
                    }
                  else Some h5);
            h7 \<leftarrow> set_count h6 a (count nx);
            set_count h7 x (count n)
          }
      | _ \<Rightarrow> None)"

section \<open>Iterators\<close>

text \<open>
  An iterator is a node pointer and a position; the position is an \<open>int\<close> and is \<open>-1\<close>
  before the first value of a node.
\<close>

record iterator =
  node :: "addr option"
  pos :: int

definition Iterator :: "addr option \<Rightarrow> int \<Rightarrow> iterator" where
  "Iterator n p = \<lparr> node = n, pos = p \<rparr>"

text \<open>\<open>is_root()\<close>: the parent of the root is the leftmost leaf, every other parent is internal.\<close>

definition is_root :: "'v heap \<Rightarrow> addr \<Rightarrow> bool option" where
  "is_root h a = do { n \<leftarrow> h a; p \<leftarrow> parent n; np \<leftarrow> h p; Some (leaf np) }"

text \<open>
  The loops of \<open>increment_slow\<close>: up while at the end of a node, down to the leftmost
  leaf. Every step up asserts that the node is the child of its parent at its position.
\<close>

partial_function (option) increment_up :: "'v heap \<Rightarrow> addr \<Rightarrow> int \<Rightarrow> (addr \<times> int) option" where
  "increment_up h a p =
     (case h a of
        None \<Rightarrow> None
      | Some n \<Rightarrow>
          (case is_root h a of
             None \<Rightarrow> (if p = int (count n) then None else Some (a, p))
           | Some r \<Rightarrow>
               if p = int (count n) \<and> \<not> r then
                 (case parent n of
                    None \<Rightarrow> None
                  | Some pa \<Rightarrow>
                      (case child h pa (position n) of
                         Some c \<Rightarrow>
                           if c = Some a then increment_up h pa (int (position n)) else None
                       | None \<Rightarrow> None))
               else Some (a, p)))"

declare increment_up.simps [code]

partial_function (option) leftmost_leaf :: "'v heap \<Rightarrow> addr \<Rightarrow> addr option" where
  "leftmost_leaf h a =
     (case h a of
        None \<Rightarrow> None
      | Some n \<Rightarrow>
          if leaf n then Some a
          else (case child h a 0 of
                  Some (Some c) \<Rightarrow> leftmost_leaf h c
                | _ \<Rightarrow> None))"

declare leftmost_leaf.simps [code]

definition increment_slow :: "'v heap \<Rightarrow> iterator \<Rightarrow> iterator option" where
  "increment_slow h it =
     (case node it of
        None \<Rightarrow> None
      | Some a \<Rightarrow>
          (case h a of
             None \<Rightarrow> None
           | Some n \<Rightarrow>
               if leaf n then
                 (if pos it < int (count n) then None
                  else
                    do {
                      (a', p') \<leftarrow> increment_up h a (pos it);
                      n' \<leftarrow> h a';
                      Some (if p' = int (count n') then it else Iterator (Some a') p')
                    })
               else if int (count n) \<le> pos it \<or> pos it + 1 < 0 then None
               else
                 (case child h a (nat (pos it + 1)) of
                    Some (Some c) \<Rightarrow>
                      do { l \<leftarrow> leftmost_leaf h c; Some (Iterator (Some l) 0) }
                  | _ \<Rightarrow> None)))"

definition increment :: "'v heap \<Rightarrow> iterator \<Rightarrow> iterator option" where
  "increment h it =
     (case node it of
        None \<Rightarrow> None
      | Some a \<Rightarrow>
          (case h a of
             None \<Rightarrow> None
           | Some n \<Rightarrow>
               if leaf n then
                 (if pos it + 1 < int (count n) then Some (it\<lparr>pos := pos it + 1\<rparr>)
                  else increment_slow h (it\<lparr>pos := pos it + 1\<rparr>))
               else increment_slow h it))"

text \<open>The loops of \<open>decrement_slow\<close> with their assertions, and \<open>decrement\<close>.\<close>

partial_function (option) decrement_up :: "'v heap \<Rightarrow> addr \<Rightarrow> int \<Rightarrow> (addr \<times> int) option" where
  "decrement_up h a p =
     (case h a of
        None \<Rightarrow> None
      | Some n \<Rightarrow>
          (case is_root h a of
             None \<Rightarrow> (if p < 0 then None else Some (a, p))
           | Some r \<Rightarrow>
               if p < 0 \<and> \<not> r then
                 (case parent n of
                    None \<Rightarrow> None
                  | Some pa \<Rightarrow>
                      (case child h pa (position n) of
                         Some c \<Rightarrow>
                           if c = Some a then decrement_up h pa (int (position n) - 1) else None
                       | None \<Rightarrow> None))
               else Some (a, p)))"

declare decrement_up.simps [code]

partial_function (option) rightmost_leaf :: "'v heap \<Rightarrow> addr \<Rightarrow> addr option" where
  "rightmost_leaf h a =
     (case h a of
        None \<Rightarrow> None
      | Some n \<Rightarrow>
          if leaf n then Some a
          else (case child h a (count n) of
                  Some (Some c) \<Rightarrow> rightmost_leaf h c
                | _ \<Rightarrow> None))"

declare rightmost_leaf.simps [code]

definition decrement_slow :: "'v heap \<Rightarrow> iterator \<Rightarrow> iterator option" where
  "decrement_slow h it =
     (case node it of
        None \<Rightarrow> None
      | Some a \<Rightarrow>
          (case h a of
             None \<Rightarrow> None
           | Some n \<Rightarrow>
               if leaf n then
                 (if - 1 < pos it then None
                  else
                    do {
                      (a', p') \<leftarrow> decrement_up h a (pos it);
                      Some (if p' < 0 then it else Iterator (Some a') p')
                    })
               else if pos it < 0 then None
               else
                 (case child h a (nat (pos it)) of
                    Some (Some c) \<Rightarrow>
                      do {
                        l \<leftarrow> rightmost_leaf h c;
                        nl \<leftarrow> h l;
                        Some (Iterator (Some l) (int (count nl) - 1))
                      }
                  | _ \<Rightarrow> None)))"

definition decrement :: "'v heap \<Rightarrow> iterator \<Rightarrow> iterator option" where
  "decrement h it =
     (case node it of
        None \<Rightarrow> None
      | Some a \<Rightarrow>
          (case h a of
             None \<Rightarrow> None
           | Some n \<Rightarrow>
               if leaf n then
                 (if pos it - 1 \<ge> 0 then Some (it\<lparr>pos := pos it - 1\<rparr>)
                  else decrement_slow h (it\<lparr>pos := pos it - 1\<rparr>))
               else decrement_slow h it))"

section \<open>The tree\<close>

text \<open>
  A \<open>btree\<close> object: the comparison functor instance it was constructed with (its base
  subobject), the root pointer \<open>root_.data\<close>, and the allocator, which is the node store
  and the next address it hands out. Allocation always succeeds.
\<close>

record ('v, 'c) btree =
  key_comp :: 'c
  root :: "addr option"
  nodes :: "'v heap"
  next_addr :: addr

definition btree_init :: "'c \<Rightarrow> ('v, 'c) btree" where
  "btree_init cmp = \<lparr> key_comp = cmp, root = None, nodes = (\<lambda>_. None), next_addr = 0 \<rparr>"

definition compare_keys :: "('k, 'v, 'c) params \<Rightarrow> ('v, 'c) btree \<Rightarrow> 'k \<Rightarrow> 'k \<Rightarrow> bool" where
  "compare_keys P t x y = btree_compare_keys (compare_class P) (key_comp t) x y"

definition empty :: "('v, 'c) btree \<Rightarrow> bool" where
  "empty t = (root t = None)"

text \<open>
  \<open>rightmost()\<close> is the root itself while the root is a leaf and the root's
  \<open>rightmost\<close> field otherwise; \<open>leftmost()\<close> is the root's parent pointer.
\<close>

definition tree_rightmost :: "('v, 'c) btree \<Rightarrow> addr option option" where
  "tree_rightmost t =
     (case root t of
        None \<Rightarrow> Some None
      | Some r \<Rightarrow> do { n \<leftarrow> nodes t r; Some (if leaf n then Some r else rightmost n) })"

definition tree_leftmost :: "('v, 'c) btree \<Rightarrow> addr option option" where
  "tree_leftmost t =
     (case root t of
        None \<Rightarrow> Some None
      | Some r \<Rightarrow> do { n \<leftarrow> nodes t r; Some (parent n) })"

definition tree_begin :: "('v, 'c) btree \<Rightarrow> iterator option" where
  "tree_begin t = do { l \<leftarrow> tree_leftmost t; Some (Iterator l 0) }"

definition tree_end :: "('v, 'c) btree \<Rightarrow> iterator option" where
  "tree_end t =
     do {
       r \<leftarrow> tree_rightmost t;
       (case r of
          None \<Rightarrow> Some (Iterator None 0)
        | Some a \<Rightarrow> do { n \<leftarrow> nodes t a; Some (Iterator (Some a) (int (count n))) })
     }"

definition tree_size :: "('v, 'c) btree \<Rightarrow> int option" where
  "tree_size t =
     (case root t of
        None \<Rightarrow> Some 0
      | Some r \<Rightarrow> do { n \<leftarrow> nodes t r; Some (if leaf n then int (count n) else size n) })"

text \<open>\<open>++*mutable_size()\<close> and \<open>--*mutable_size()\<close> on the root's \<open>size\<close> field.\<close>

definition add_size :: "('v, 'c) btree \<Rightarrow> int \<Rightarrow> ('v, 'c) btree option" where
  "add_size t d =
     (case root t of
        None \<Rightarrow> None
      | Some r \<Rightarrow>
          do { h \<leftarrow> update_node (nodes t) r (\<lambda>n. n\<lparr>size := size n + d\<rparr>); Some (t\<lparr>nodes := h\<rparr>) })"

definition set_rightmost :: "('v, 'c) btree \<Rightarrow> addr option \<Rightarrow> ('v, 'c) btree option" where
  "set_rightmost t a =
     (case root t of
        None \<Rightarrow> None
      | Some r \<Rightarrow>
          do { h \<leftarrow> update_node (nodes t) r (\<lambda>n. n\<lparr>rightmost := a\<rparr>); Some (t\<lparr>nodes := h\<rparr>) })"

subsection \<open>Node creation and deletion\<close>

text \<open>
  \<open>init_leaf\<close>, \<open>init_internal\<close> and \<open>init_root\<close>. The value slots and child pointers
  are not initialised by the source (the \<open>memset\<close> calls stand under
  \<open>#ifndef NDEBUG\<close>, and \<open>NDEBUG\<close> is defined there); they are the default value
  and \<open>NULL\<close> here, and so are the root fields of a node that is not an internal root.
\<close>

definition init_leaf :: "('k, 'v, 'c) params \<Rightarrow> addr option \<Rightarrow> nat \<Rightarrow> 'v btree_node" where
  "init_leaf P par mc =
     \<lparr> leaf = True, position = 0, max_count = mc, count = 0, parent = par,
       values = replicate mc (default_value P), children = [],
       rightmost = None, size = 0 \<rparr>"

definition init_internal :: "('k, 'v, 'c) params \<Rightarrow> addr option \<Rightarrow> 'v btree_node" where
  "init_internal P par =
     (init_leaf P par (kNodeValues P))
       \<lparr> leaf := False, children := replicate (kNodeValues P + 1) None \<rparr>"

definition init_root :: "('k, 'v, 'c) params \<Rightarrow> 'v heap \<Rightarrow> addr option \<Rightarrow> 'v btree_node option" where
  "init_root P h par =
     do {
       p \<leftarrow> par;
       np \<leftarrow> h p;
       Some ((init_internal P par) \<lparr> rightmost := par, size := int (count np) \<rparr>)
     }"

definition allocate :: "('v, 'c) btree \<Rightarrow> 'v btree_node \<Rightarrow> ('v, 'c) btree \<times> addr" where
  "allocate t n =
     (t\<lparr> nodes := (nodes t)(next_addr t \<mapsto> n), next_addr := next_addr t + 1 \<rparr>, next_addr t)"

definition new_internal_node ::
  "('k, 'v, 'c) params \<Rightarrow> ('v, 'c) btree \<Rightarrow> addr option \<Rightarrow> ('v, 'c) btree \<times> addr" where
  "new_internal_node P t par = allocate t (init_internal P par)"

definition new_internal_root_node ::
  "('k, 'v, 'c) params \<Rightarrow> ('v, 'c) btree \<Rightarrow> (('v, 'c) btree \<times> addr) option" where
  "new_internal_root_node P t =
     do {
       r \<leftarrow> root t;
       nr \<leftarrow> nodes t r;
       n \<leftarrow> init_root P (nodes t) (parent nr);
       Some (allocate t n)
     }"

definition new_leaf_node ::
  "('k, 'v, 'c) params \<Rightarrow> ('v, 'c) btree \<Rightarrow> addr option \<Rightarrow> ('v, 'c) btree \<times> addr" where
  "new_leaf_node P t par = allocate t (init_leaf P par (kNodeValues P))"

definition new_leaf_root_node ::
  "('k, 'v, 'c) params \<Rightarrow> ('v, 'c) btree \<Rightarrow> nat \<Rightarrow> ('v, 'c) btree \<times> addr" where
  "new_leaf_root_node P t mc = allocate t (init_leaf P (Some (next_addr t)) mc)"

text \<open>
  The three delete routines destroy the values of the node and return its storage to the
  allocator; \<open>delete_internal_node\<close> asserts that the node is not the root.
\<close>

definition delete_node :: "('v, 'c) btree \<Rightarrow> addr \<Rightarrow> ('v, 'c) btree option" where
  "delete_node t a =
     (case nodes t a of
        None \<Rightarrow> None
      | Some n \<Rightarrow> Some (t\<lparr> nodes := (nodes t)(a := None) \<rparr>))"

definition delete_internal_node :: "('v, 'c) btree \<Rightarrow> addr \<Rightarrow> ('v, 'c) btree option" where
  "delete_internal_node t a = (if root t = Some a then None else delete_node t a)"

definition delete_internal_root_node :: "('v, 'c) btree \<Rightarrow> ('v, 'c) btree option" where
  "delete_internal_root_node t = (case root t of None \<Rightarrow> None | Some r \<Rightarrow> delete_node t r)"

definition delete_leaf_node :: "('v, 'c) btree \<Rightarrow> addr \<Rightarrow> ('v, 'c) btree option" where
  "delete_leaf_node t a = delete_node t a"

subsection \<open>Locating a key\<close>

text \<open>
  \<open>internal_last\<close> moves an iterator that stands behind the last value of its node up to
  the next value in order; it ends with a null node when there is none.
\<close>

partial_function (option) internal_last :: "'v heap \<Rightarrow> iterator \<Rightarrow> iterator option" where
  "internal_last h it =
     (case node it of
        None \<Rightarrow> Some it
      | Some a \<Rightarrow>
          (case h a of
             None \<Rightarrow> None
           | Some n \<Rightarrow>
               if pos it = int (count n) then
                 (case parent n of
                    None \<Rightarrow> None
                  | Some p \<Rightarrow>
                      (case h p of
                         None \<Rightarrow> None
                       | Some np \<Rightarrow>
                           internal_last h
                             (Iterator (if leaf np then None else Some p) (int (position n)))))
               else Some it))"

declare internal_last.simps [code]

text \<open>
  The descents. Each one searches the node, stops at a leaf and otherwise goes on in
  \<open>child(position)\<close>. \<open>internal_locate\<close> is the compare-to descent when the functor
  class is compare-to and the plain one otherwise.
\<close>

partial_function (option) internal_locate_plain_compare ::
  "('k, 'v, 'c) params \<Rightarrow> ('v, 'c) btree \<Rightarrow> 'k \<Rightarrow> addr option \<Rightarrow> (iterator \<times> int) option" where
  "internal_locate_plain_compare P t k a =
     (case a of
        None \<Rightarrow> None
      | Some a' \<Rightarrow>
          (case nodes t a' of
             None \<Rightarrow> None
           | Some n \<Rightarrow>
               (case node_lower_bound P n k (key_comp t) of
                  None \<Rightarrow> None
                | Some p \<Rightarrow>
                    if leaf n then Some (Iterator a p, 0)
                    else if p < 0 then None
                    else (case child (nodes t) a' (nat p) of
                            None \<Rightarrow> None
                          | Some c \<Rightarrow> internal_locate_plain_compare P t k c))))"

declare internal_locate_plain_compare.simps [code]

partial_function (option) internal_locate_compare_to ::
  "('k, 'v, 'c) params \<Rightarrow> ('v, 'c) btree \<Rightarrow> 'k \<Rightarrow> addr option \<Rightarrow> (iterator \<times> int) option" where
  "internal_locate_compare_to P t k a =
     (case a of
        None \<Rightarrow> None
      | Some a' \<Rightarrow>
          (case nodes t a' of
             None \<Rightarrow> None
           | Some n \<Rightarrow>
               (case node_lower_bound P n k (key_comp t) of
                  None \<Rightarrow> None
                | Some res \<Rightarrow>
                    let p = res AND kMatchMask in
                    if res AND kExactMatch \<noteq> 0 then Some (Iterator a p, kExactMatch)
                    else if leaf n then Some (Iterator a p, - kExactMatch)
                    else (case child (nodes t) a' (nat p) of
                            None \<Rightarrow> None
                          | Some c \<Rightarrow> internal_locate_compare_to P t k c))))"

declare internal_locate_compare_to.simps [code]

definition internal_locate ::
  "('k, 'v, 'c) params \<Rightarrow> ('v, 'c) btree \<Rightarrow> 'k \<Rightarrow> iterator \<Rightarrow> (iterator \<times> int) option" where
  "internal_locate P t k it =
     (if is_key_compare_to (compare_class P) then internal_locate_compare_to P t k (node it)
      else internal_locate_plain_compare P t k (node it))"

partial_function (option) lower_bound_descent ::
  "('k, 'v, 'c) params \<Rightarrow> ('v, 'c) btree \<Rightarrow> 'k \<Rightarrow> addr option \<Rightarrow> iterator option" where
  "lower_bound_descent P t k a =
     (case a of
        None \<Rightarrow> None
      | Some a' \<Rightarrow>
          (case nodes t a' of
             None \<Rightarrow> None
           | Some n \<Rightarrow>
               (case node_lower_bound P n k (key_comp t) of
                  None \<Rightarrow> None
                | Some res \<Rightarrow>
                    let p = res AND kMatchMask in
                    if leaf n then Some (Iterator a p)
                    else (case child (nodes t) a' (nat p) of
                            None \<Rightarrow> None
                          | Some c \<Rightarrow> lower_bound_descent P t k c))))"

declare lower_bound_descent.simps [code]

definition internal_lower_bound ::
  "('k, 'v, 'c) params \<Rightarrow> ('v, 'c) btree \<Rightarrow> 'k \<Rightarrow> iterator \<Rightarrow> iterator option" where
  "internal_lower_bound P t k it =
     (case node it of
        None \<Rightarrow> Some it
      | Some a \<Rightarrow> do { it' \<leftarrow> lower_bound_descent P t k (Some a); internal_last (nodes t) it' })"

partial_function (option) upper_bound_descent ::
  "('k, 'v, 'c) params \<Rightarrow> ('v, 'c) btree \<Rightarrow> 'k \<Rightarrow> addr option \<Rightarrow> iterator option" where
  "upper_bound_descent P t k a =
     (case a of
        None \<Rightarrow> None
      | Some a' \<Rightarrow>
          (case nodes t a' of
             None \<Rightarrow> None
           | Some n \<Rightarrow>
               (case node_upper_bound P n k (key_comp t) of
                  None \<Rightarrow> None
                | Some p \<Rightarrow>
                    if leaf n then Some (Iterator a p)
                    else if p < 0 then None
                    else (case child (nodes t) a' (nat p) of
                            None \<Rightarrow> None
                          | Some c \<Rightarrow> upper_bound_descent P t k c))))"

declare upper_bound_descent.simps [code]

definition internal_upper_bound ::
  "('k, 'v, 'c) params \<Rightarrow> ('v, 'c) btree \<Rightarrow> 'k \<Rightarrow> iterator \<Rightarrow> iterator option" where
  "internal_upper_bound P t k it =
     (case node it of
        None \<Rightarrow> Some it
      | Some a \<Rightarrow> do { it' \<leftarrow> upper_bound_descent P t k (Some a); internal_last (nodes t) it' })"

definition internal_end :: "('v, 'c) btree \<Rightarrow> iterator \<Rightarrow> iterator option" where
  "internal_end t it = (if node it \<noteq> None then Some it else tree_end t)"

subsection \<open>Insertion\<close>

text \<open>
  The two rebalancing attempts of \<open>rebalance_or_split\<close> on a full node that is not the
  root. The result \<open>Some None\<close> says that the attempt did not apply; \<open>Some (Some r)\<close>
  is the state and the iterator with which \<open>rebalance_or_split\<close> returns. The number of
  values moved is biased by the insert position. After the move the source asserts that
  the node the iterator points to has room (and, on the left, that exactly \<open>to_move\<close>
  slots of the node have become free).
\<close>

definition rebalance_with_left ::
  "('k, 'v, 'c) params \<Rightarrow> 'v heap \<Rightarrow> addr \<Rightarrow> int \<Rightarrow> ('v heap \<times> iterator) option option" where
  "rebalance_with_left P h a insert_position =
     (case h a of
        None \<Rightarrow> None
      | Some n \<Rightarrow>
          if position n > 0 then
            (case parent n of
               None \<Rightarrow> None
             | Some p \<Rightarrow>
                 (case child h p (position n - 1) of
                    Some (Some left) \<Rightarrow>
                      (case h left of
                         None \<Rightarrow> None
                       | Some nl \<Rightarrow>
                           if count nl < max_count nl then
                             let to_move = max 1 ((max_count nl - count nl) div
                                             (1 + (if insert_position < int (max_count nl) then 1 else 0)))
                             in
                             if insert_position - int to_move \<ge> 0 \<or> count nl + to_move < max_count nl
                             then
                               do {
                                 h' \<leftarrow> rebalance_right_to_left P h left a to_move;
                                 n' \<leftarrow> h' a;
                                 nl' \<leftarrow> h' left;
                                 if int (max_count n') - int (count n') \<noteq> int to_move then None
                                 else if insert_position - int to_move < 0 then
                                   (if count nl' < max_count nl' then
                                      Some (Some (h', Iterator (Some left)
                                        (insert_position - int to_move + int (count nl') + 1)))
                                    else None)
                                 else
                                   (if count n' < max_count n' then
                                      Some (Some (h', Iterator (Some a)
                                        (insert_position - int to_move)))
                                    else None)
                               }
                             else Some None
                           else Some None)
                  | _ \<Rightarrow> None))
          else Some None)"

definition rebalance_with_right ::
  "('k, 'v, 'c) params \<Rightarrow> 'v heap \<Rightarrow> addr \<Rightarrow> int \<Rightarrow> ('v heap \<times> iterator) option option" where
  "rebalance_with_right P h a insert_position =
     (case h a of
        None \<Rightarrow> None
      | Some n \<Rightarrow>
          (case parent n of
             None \<Rightarrow> None
           | Some p \<Rightarrow>
               (case h p of
                  None \<Rightarrow> None
                | Some np \<Rightarrow>
                    if position n < count np then
                      (case child h p (position n + 1) of
                         Some (Some right) \<Rightarrow>
                           (case h right of
                              None \<Rightarrow> None
                            | Some nr \<Rightarrow>
                                if count nr < max_count nr then
                                  let to_move = max 1 ((max_count nr - count nr) div
                                                  (1 + (if insert_position > 0 then 1 else 0)))
                                  in
                                  if insert_position \<le> int (count n) - int to_move
                                     \<or> count nr + to_move < max_count nr
                                  then
                                    do {
                                      h' \<leftarrow> rebalance_left_to_right P h a right to_move;
                                      n' \<leftarrow> h' a;
                                      nr' \<leftarrow> h' right;
                                      if insert_position > int (count n') then
                                        (if count nr' < max_count nr' then
                                           Some (Some (h', Iterator (Some right)
                                             (insert_position - int (count n') - 1)))
                                         else None)
                                      else
                                        (if count n' < max_count n' then
                                           Some (Some (h', Iterator (Some a) insert_position))
                                         else None)
                                    }
                                  else Some None
                                else Some None)
                       | _ \<Rightarrow> None)
                    else Some None)))"

text \<open>
  The end of \<open>rebalance_or_split\<close>: a new right sibling is allocated with the parent
  pointer \<open>par\<close>, the node is split into it, \<open>rightmost\<close> follows a split of the
  rightmost leaf, and the iterator moves to the sibling when the insert position lies
  behind the values left in the node.
\<close>

definition split_node ::
  "('k, 'v, 'c) params \<Rightarrow> ('v, 'c) btree \<Rightarrow> addr \<Rightarrow> addr option \<Rightarrow> int \<Rightarrow>
     (('v, 'c) btree \<times> iterator) option" where
  "split_node P t a par insert_position =
     (case nodes t a of
        None \<Rightarrow> None
      | Some n \<Rightarrow>
          do {
            (t2, sn) \<leftarrow>
              (if leaf n then
                 do {
                   let (t1, sn) = new_leaf_node P t par;
                   h \<leftarrow> split P (nodes t1) a sn insert_position;
                   let t2 = t1\<lparr>nodes := h\<rparr>;
                   rm \<leftarrow> tree_rightmost t2;
                   t3 \<leftarrow> (if rm = Some a then set_rightmost t2 (Some sn) else Some t2);
                   Some (t3, sn)
                 }
               else
                 do {
                   let (t1, sn) = new_internal_node P t par;
                   h \<leftarrow> split P (nodes t1) a sn insert_position;
                   Some (t1\<lparr>nodes := h\<rparr>, sn)
                 });
            n' \<leftarrow> nodes t2 a;
            Some (t2,
              if insert_position > int (count n')
              then Iterator (Some sn) (insert_position - int (count n') - 1)
              else Iterator (Some a) insert_position)
          })"

text \<open>
  \<open>rebalance_or_split\<close> on the root. A leaf root gets a new internal root above it
  (the source then asserts that the \<open>rightmost\<close> field of the new root is its first
  child); an internal root moves its content into a new internal node below it, so that
  the root object stays the same. The node is split afterwards.
\<close>

definition split_root ::
  "('k, 'v, 'c) params \<Rightarrow> ('v, 'c) btree \<Rightarrow> iterator \<Rightarrow> (('v, 'c) btree \<times> iterator) option" where
  "split_root P t it =
     (case root t of
        None \<Rightarrow> None
      | Some r \<Rightarrow>
          (case nodes t r of
             None \<Rightarrow> None
           | Some n \<Rightarrow>
               if leaf n then
                 do {
                   (t1, p) \<leftarrow> new_internal_root_node P t;
                   h \<leftarrow> set_child (nodes t1) p 0 (Some r);
                   np \<leftarrow> h p;
                   c0 \<leftarrow> child h p 0;
                   if rightmost np \<noteq> c0 then None
                   else split_node P (t1\<lparr>nodes := h, root := Some p\<rparr>) r (Some p) (pos it)
                 }
               else
                 do {
                   let (t1, p) = new_internal_node P t (parent n);
                   h \<leftarrow> set_child (nodes t1) p 0 (Some p);
                   h' \<leftarrow> swap P h p r;
                   split_node P (t1\<lparr>nodes := h'\<rparr>) p (Some p) (pos it)
                 }))"

definition rebalance_with_siblings ::
  "('k, 'v, 'c) params \<Rightarrow> 'v heap \<Rightarrow> addr \<Rightarrow> int \<Rightarrow> ('v heap \<times> iterator) option option" where
  "rebalance_with_siblings P h a insert_position =
     (case rebalance_with_left P h a insert_position of
        None \<Rightarrow> None
      | Some (Some r) \<Rightarrow> Some (Some r)
      | Some None \<Rightarrow> rebalance_with_right P h a insert_position)"

text \<open>
  \<open>rebalance_or_split\<close> makes room in the node the iterator points to, which it
  asserts to be full. For a node that is not the root it tries the left and the right
  sibling, and when both fail it first makes room in a full parent by calling itself, and
  then splits the node.
\<close>

partial_function (option) rebalance_or_split ::
  "('k, 'v, 'c) params \<Rightarrow> ('v, 'c) btree \<Rightarrow> iterator \<Rightarrow> (('v, 'c) btree \<times> iterator) option" where
  "rebalance_or_split P t it =
     (case node it of
        None \<Rightarrow> None
      | Some a \<Rightarrow>
          (case nodes t a of
             None \<Rightarrow> None
           | Some n \<Rightarrow>
               if count n \<noteq> max_count n then None
               else if Some a \<noteq> root t then
                 (case rebalance_with_siblings P (nodes t) a (pos it) of
                    None \<Rightarrow> None
                  | Some r \<Rightarrow>
                      (case r of
                         Some hi \<Rightarrow> Some (t\<lparr>nodes := fst hi\<rparr>, snd hi)
                       | None \<Rightarrow>
                           (case parent n of
                              None \<Rightarrow> None
                            | Some p \<Rightarrow>
                                (case nodes t p of
                                   None \<Rightarrow> None
                                 | Some np \<Rightarrow>
                                     if count np = max_count np then
                                       do {
                                         tp \<leftarrow> rebalance_or_split P t
                                                (Iterator (Some p) (int (position n)));
                                         split_node P (fst tp) a (Some p) (pos it)
                                       }
                                     else split_node P t a (Some p) (pos it)))))
               else split_root P t it))"

declare rebalance_or_split.simps [code]

text \<open>
  \<open>internal_insert(iter, v)\<close> inserts \<open>v\<close> immediately before \<open>iter\<close>. An iterator on
  an internal node is moved behind the previous value, which is on a leaf. A full leaf
  that is smaller than a full node is asserted to be the root: it is replaced by a leaf
  root of twice the capacity (at most \<open>kNodeValues\<close>). Any other full leaf is rebalanced
  or split. The reference \<open>v\<close> is read last, in the call of \<open>insert_value\<close>, in the
  node store as it is then.
\<close>

definition internal_insert ::
  "('k, 'v, 'c) params \<Rightarrow> ('v, 'c) btree \<Rightarrow> iterator \<Rightarrow> 'v value_ref \<Rightarrow>
     (('v, 'c) btree \<times> iterator) option" where
  "internal_insert P t it0 v =
     do {
       a0 \<leftarrow> node it0;
       n0 \<leftarrow> nodes t a0;
       it \<leftarrow> (if \<not> leaf n0 then
                do { it' \<leftarrow> decrement (nodes t) it0; Some (it'\<lparr>pos := pos it' + 1\<rparr>) }
              else Some it0);
       a \<leftarrow> node it;
       n \<leftarrow> nodes t a;
       r \<leftarrow> root t;
       (t2, it2) \<leftarrow>
         (if count n = max_count n then
            (if max_count n < kNodeValues P then
               if a \<noteq> r then None
               else
               do {
                 let (t1, a1) = new_leaf_root_node P t (min (kNodeValues P) (2 * max_count n));
                 h \<leftarrow> swap P (nodes t1) a1 r;
                 t2 \<leftarrow> delete_leaf_node (t1\<lparr>nodes := h\<rparr>) r;
                 Some (t2\<lparr>root := Some a1\<rparr>, it\<lparr>node := Some a1\<rparr>)
               }
             else
               do {
                 (t1, it1) \<leftarrow> rebalance_or_split P t it;
                 t2 \<leftarrow> add_size t1 1;
                 Some (t2, it1)
               })
          else
            do {
              nr \<leftarrow> nodes t r;
              t1 \<leftarrow> (if \<not> leaf nr then add_size t 1 else Some t);
              Some (t1, it)
            });
       a2 \<leftarrow> node it2;
       if pos it2 < 0 then None
       else
         do {
           x \<leftarrow> read_ref (nodes t2) v;
           h \<leftarrow> insert_value (nodes t2) a2 (nat (pos it2)) x;
           Some (t2\<lparr>nodes := h\<rparr>, it2)
         }
     }"

text \<open>
  \<open>insert_unique(key, value)\<close> and \<open>insert_multi(key, value)\<close>; the value pointer is
  dereferenced where the source does it, in the call of \<open>internal_insert\<close>, which
  takes the result as a reference. The key is a reference too; every read of it precedes
  the first change of a node, so it is passed by value here. An empty tree first gets a
  leaf root with room for one value.
\<close>

definition ensure_root :: "('k, 'v, 'c) params \<Rightarrow> ('v, 'c) btree \<Rightarrow> ('v, 'c) btree" where
  "ensure_root P t =
     (if empty t then (let (t1, a) = new_leaf_root_node P t 1 in t1\<lparr>root := Some a\<rparr>) else t)"

definition insert_unique ::
  "('k, 'v, 'c) params \<Rightarrow> ('v, 'c) btree \<Rightarrow> 'k \<Rightarrow> 'v value_ref \<Rightarrow>
     (('v, 'c) btree \<times> iterator \<times> bool) option" where
  "insert_unique P t0 k v =
     (let t = ensure_root P t0 in
      do {
        (it, res) \<leftarrow> internal_locate P t k (Iterator (root t) 0);
        if res = kExactMatch then
          do { l \<leftarrow> internal_last (nodes t) it; Some (t, l, False) }
        else
          do {
            dup \<leftarrow>
              (if res = 0 then
                 do {
                   l \<leftarrow> internal_last (nodes t) it;
                   (case node l of
                      None \<Rightarrow> Some None
                    | Some la \<Rightarrow>
                        do {
                          nl \<leftarrow> nodes t la;
                          kl \<leftarrow> (if pos l < 0 then None else key P nl (nat (pos l)));
                          Some (if \<not> compare_keys P t k kl then Some l else None)
                        })
                 }
               else Some None);
            (case dup of
               Some l \<Rightarrow> Some (t, l, False)
             | None \<Rightarrow>
                 do { (t', it') \<leftarrow> internal_insert P t it v; Some (t', it', True) })
          }
      })"

definition insert_multi ::
  "('k, 'v, 'c) params \<Rightarrow> ('v, 'c) btree \<Rightarrow> 'k \<Rightarrow> 'v value_ref \<Rightarrow>
     (('v, 'c) btree \<times> iterator) option" where
  "insert_multi P t0 k v =
     (let t = ensure_root P t0 in
      do {
        it \<leftarrow> internal_upper_bound P t k (Iterator (root t) 0);
        it' \<leftarrow> (if node it = None then tree_end t else Some it);
        internal_insert P t it' v
      })"

subsection \<open>Erasure\<close>

text \<open>C++ division of \<open>int\<close> truncates towards zero.\<close>

definition cdiv :: "int \<Rightarrow> int \<Rightarrow> int" where
  "cdiv a b = sgn a * sgn b * (\<bar>a\<bar> div \<bar>b\<bar>)"

text \<open>
  \<open>merge_nodes(left, right)\<close> merges \<open>right\<close> into \<open>left\<close> and deletes it;
  \<open>rightmost\<close> follows when \<open>right\<close> was the rightmost leaf.
\<close>

definition merge_nodes ::
  "('k, 'v, 'c) params \<Rightarrow> ('v, 'c) btree \<Rightarrow> addr \<Rightarrow> addr \<Rightarrow> ('v, 'c) btree option" where
  "merge_nodes P t left right =
     do {
       h \<leftarrow> merge P (nodes t) left right;
       let t1 = t\<lparr>nodes := h\<rparr>;
       nr \<leftarrow> h right;
       if leaf nr then
         do {
           rm \<leftarrow> tree_rightmost t1;
           t2 \<leftarrow> (if rm = Some right then set_rightmost t1 (Some left) else Some t1);
           delete_leaf_node t2 right
         }
       else delete_internal_node t1 right
     }"

text \<open>
  \<open>try_merge_or_rebalance(iter)\<close> on a node with fewer than \<open>kMinNodeValues\<close> values:
  merge with the left sibling when both fit into one node, else merge with the right
  sibling, else take values from the right sibling, else from the left one. Values are
  not taken from the right sibling when the erased value was the first of a node that is
  not empty now, and not from the left sibling when it was the last one. The result is
  \<open>True\<close> exactly when a merge took place.
\<close>

definition merge_with_left ::
  "('k, 'v, 'c) params \<Rightarrow> ('v, 'c) btree \<Rightarrow> iterator \<Rightarrow>
     (('v, 'c) btree \<times> iterator) option option" where
  "merge_with_left P t it =
     (case node it of
        None \<Rightarrow> None
      | Some a \<Rightarrow>
          (case nodes t a of
             None \<Rightarrow> None
           | Some n \<Rightarrow>
               if position n > 0 then
                 (case parent n of
                    None \<Rightarrow> None
                  | Some p \<Rightarrow>
                      (case child (nodes t) p (position n - 1) of
                         Some (Some left) \<Rightarrow>
                           (case nodes t left of
                              None \<Rightarrow> None
                            | Some nl \<Rightarrow>
                                if 1 + count nl + count n \<le> max_count nl then
                                  do {
                                    t' \<leftarrow> merge_nodes P t left a;
                                    Some (Some (t', Iterator (Some left) (pos it + 1 + int (count nl))))
                                  }
                                else Some None)
                       | _ \<Rightarrow> None))
               else Some None))"

definition merge_or_rebalance_with_right ::
  "('k, 'v, 'c) params \<Rightarrow> ('v, 'c) btree \<Rightarrow> iterator \<Rightarrow>
     (('v, 'c) btree \<times> iterator \<times> bool) option option" where
  "merge_or_rebalance_with_right P t it =
     (case node it of
        None \<Rightarrow> None
      | Some a \<Rightarrow>
          (case nodes t a of
             None \<Rightarrow> None
           | Some n \<Rightarrow>
               (case parent n of
                  None \<Rightarrow> None
                | Some p \<Rightarrow>
                    (case nodes t p of
                       None \<Rightarrow> None
                     | Some np \<Rightarrow>
                         if position n < count np then
                           (case child (nodes t) p (position n + 1) of
                              Some (Some right) \<Rightarrow>
                                (case nodes t right of
                                   None \<Rightarrow> None
                                 | Some nr \<Rightarrow>
                                     if 1 + count n + count nr \<le> max_count nr then
                                       do {
                                         t' \<leftarrow> merge_nodes P t a right;
                                         Some (Some (t', it, True))
                                       }
                                     else if count nr > kMinNodeValues P
                                             \<and> (count n = 0 \<or> pos it > 0) then
                                       let to_move = min (cdiv (int (count nr) - int (count n)) 2)
                                                         (int (count nr) - 1)
                                       in
                                       if to_move < 0 then None
                                       else
                                         do {
                                           h \<leftarrow> rebalance_right_to_left P (nodes t) a right (nat to_move);
                                           Some (Some (t\<lparr>nodes := h\<rparr>, it, False))
                                         }
                                     else Some None)
                            | _ \<Rightarrow> None)
                         else Some None))))"

definition rebalance_from_left ::
  "('k, 'v, 'c) params \<Rightarrow> ('v, 'c) btree \<Rightarrow> iterator \<Rightarrow> (('v, 'c) btree \<times> iterator) option" where
  "rebalance_from_left P t it =
     (case node it of
        None \<Rightarrow> None
      | Some a \<Rightarrow>
          (case nodes t a of
             None \<Rightarrow> None
           | Some n \<Rightarrow>
               if position n > 0 then
                 (case parent n of
                    None \<Rightarrow> None
                  | Some p \<Rightarrow>
                      (case child (nodes t) p (position n - 1) of
                         Some (Some left) \<Rightarrow>
                           (case nodes t left of
                              None \<Rightarrow> None
                            | Some nl \<Rightarrow>
                                if count nl > kMinNodeValues P
                                   \<and> (count n = 0 \<or> pos it < int (count n)) then
                                  let to_move = min (cdiv (int (count nl) - int (count n)) 2)
                                                    (int (count nl) - 1)
                                  in
                                  if to_move < 0 then None
                                  else
                                    do {
                                      h \<leftarrow> rebalance_left_to_right P (nodes t) left a (nat to_move);
                                      Some (t\<lparr>nodes := h\<rparr>, it\<lparr>pos := pos it + to_move\<rparr>)
                                    }
                                else Some (t, it))
                       | _ \<Rightarrow> None))
               else Some (t, it)))"

definition try_merge_or_rebalance ::
  "('k, 'v, 'c) params \<Rightarrow> ('v, 'c) btree \<Rightarrow> iterator \<Rightarrow>
     (('v, 'c) btree \<times> iterator \<times> bool) option" where
  "try_merge_or_rebalance P t it =
     (case merge_with_left P t it of
        None \<Rightarrow> None
      | Some (Some (t', it')) \<Rightarrow> Some (t', it', True)
      | Some None \<Rightarrow>
          (case merge_or_rebalance_with_right P t it of
             None \<Rightarrow> None
           | Some (Some r) \<Rightarrow> Some r
           | Some None \<Rightarrow>
               do { (t', it') \<leftarrow> rebalance_from_left P t it; Some (t', it', False) }))"

text \<open>
  \<open>try_shrink\<close>: an empty leaf root is deleted and the tree becomes empty (the
  assertion \<open>size() == 0\<close> there says that the count of the leaf root is zero, which is
  the branch condition); an empty internal root is replaced by its only child when that
  is a leaf, and takes over the content of the child when that is internal.
  \<open>make_root\<close> asserts that the parent of the node is the root.
\<close>

definition make_root :: "'v heap \<Rightarrow> addr \<Rightarrow> 'v heap option" where
  "make_root h a =
     do {
       n \<leftarrow> h a;
       p \<leftarrow> parent n;
       np \<leftarrow> h p;
       r \<leftarrow> is_root h p;
       if \<not> r then None else update_node h a (\<lambda>n. n\<lparr>parent := parent np\<rparr>)
     }"

definition try_shrink :: "('k, 'v, 'c) params \<Rightarrow> ('v, 'c) btree \<Rightarrow> ('v, 'c) btree option" where
  "try_shrink P t =
     do {
       r \<leftarrow> root t;
       n \<leftarrow> nodes t r;
       if count n > 0 then Some t
       else if leaf n then
         do { t1 \<leftarrow> delete_leaf_node t r; Some (t1\<lparr>root := None\<rparr>) }
       else
         (case child (nodes t) r 0 of
            Some (Some c) \<Rightarrow>
              do {
                nc \<leftarrow> nodes t c;
                if leaf nc then
                  do {
                    h \<leftarrow> make_root (nodes t) c;
                    t1 \<leftarrow> delete_internal_root_node (t\<lparr>nodes := h\<rparr>);
                    Some (t1\<lparr>root := Some c\<rparr>)
                  }
                else
                  do {
                    h \<leftarrow> swap P (nodes t) c r;
                    delete_internal_node (t\<lparr>nodes := h\<rparr>) c
                  }
              }
          | _ \<Rightarrow> None)
     }"

text \<open>
  The loop of \<open>erase\<close> that walks up from the leaf, merging or rebalancing nodes that
  have become too small, and shrinks the tree when it reaches the root. The result holds
  the iterator \<open>res\<close>, which follows the leaf position, and tells whether the tree has
  become empty.
\<close>

partial_function (option) erase_loop ::
  "('k, 'v, 'c) params \<Rightarrow> ('v, 'c) btree \<Rightarrow> iterator \<Rightarrow> iterator \<Rightarrow>
     (('v, 'c) btree \<times> iterator \<times> bool) option" where
  "erase_loop P t it res =
     (case node it of
        None \<Rightarrow> None
      | Some a \<Rightarrow>
          if node it = root t then
            (case try_shrink P t of
               None \<Rightarrow> None
             | Some t' \<Rightarrow> Some (t', res, empty t'))
          else
            (case nodes t a of
               None \<Rightarrow> None
             | Some n \<Rightarrow>
                 if count n \<ge> kMinNodeValues P then Some (t, res, False)
                 else
                   (case try_merge_or_rebalance P t it of
                      None \<Rightarrow> None
                    | Some (t', it', merged) \<Rightarrow>
                        (case node it' of
                           None \<Rightarrow> None
                         | Some a' \<Rightarrow>
                             (case nodes t' a' of
                                None \<Rightarrow> None
                              | Some n' \<Rightarrow>
                                  let res' = (if leaf n' then it' else res) in
                                  if \<not> merged then Some (t', res', False)
                                  else erase_loop P t' (it'\<lparr>node := parent n'\<rparr>) res')))))"

declare erase_loop.simps [code]

text \<open>
  \<open>erase(iter)\<close>. A value on an internal node is first swapped with its predecessor,
  the last value of a leaf, and erased there; \<open>internal_delete\<close> records this. Before
  the swap the source asserts that the predecessor is on a leaf and that the key of the
  value to erase is not less than the key of the predecessor. The
  returned iterator is \<open>res\<close>, advanced when it stands at the end of its node, and
  advanced once more after an internal delete; it is \<open>end()\<close> when the tree has become
  empty.
\<close>

definition erase ::
  "('k, 'v, 'c) params \<Rightarrow> ('v, 'c) btree \<Rightarrow> iterator \<Rightarrow> (('v, 'c) btree \<times> iterator) option" where
  "erase P t it0 =
     do {
       a0 \<leftarrow> node it0;
       n0 \<leftarrow> nodes t a0;
       r \<leftarrow> root t;
       nr \<leftarrow> nodes t r;
       (t1, it, internal_delete) \<leftarrow>
         (if \<not> leaf n0 then
            do {
              it \<leftarrow> decrement (nodes t) it0;
              a \<leftarrow> node it;
              na \<leftarrow> nodes t a;
              k0 \<leftarrow> (if pos it0 < 0 then None else key P n0 (nat (pos it0)));
              ka \<leftarrow> (if pos it < 0 then None else key P na (nat (pos it)));
              h \<leftarrow> (if \<not> leaf na \<or> compare_keys P t k0 ka then None
                    else value_swap (nodes t) a (nat (pos it)) a0 (nat (pos it0)));
              t1 \<leftarrow> add_size (t\<lparr>nodes := h\<rparr>) (- 1);
              Some (t1, it, True)
            }
          else if \<not> leaf nr then
            do { t1 \<leftarrow> add_size t (- 1); Some (t1, it0, False) }
          else Some (t, it0, False));
       a \<leftarrow> node it;
       h \<leftarrow> (if pos it < 0 then None else remove_value (nodes t1) a (nat (pos it)));
       (t2, res, emptied) \<leftarrow> erase_loop P (t1\<lparr>nodes := h\<rparr>) it it;
       if emptied then do { e \<leftarrow> tree_end t2; Some (t2, e) }
       else
         do {
           ra \<leftarrow> node res;
           rn \<leftarrow> nodes t2 ra;
           res1 \<leftarrow> (if pos res = int (count rn)
                    then increment (nodes t2) (res\<lparr>pos := int (count rn) - 1\<rparr>)
                    else Some res);
           res2 \<leftarrow> (if internal_delete then increment (nodes t2) res1 else Some res1);
           Some (t2, res2)
         }
     }"

text \<open>
  \<open>internal_find_unique\<close> and \<open>erase_unique(key)\<close>, which erases the value with the
  given key when there is one and returns the number of values erased.
\<close>

definition internal_find_unique ::
  "('k, 'v, 'c) params \<Rightarrow> ('v, 'c) btree \<Rightarrow> 'k \<Rightarrow> iterator \<Rightarrow> iterator option" where
  "internal_find_unique P t k it =
     (case node it of
        None \<Rightarrow> Some (Iterator None 0)
      | Some a \<Rightarrow>
          do {
            (it1, res) \<leftarrow> internal_locate P t k it;
            if res = kExactMatch then Some it1
            else if res = 0 then
              do {
                l \<leftarrow> internal_last (nodes t) it1;
                (case node l of
                   None \<Rightarrow> Some (Iterator None 0)
                 | Some la \<Rightarrow>
                     do {
                       nl \<leftarrow> nodes t la;
                       kl \<leftarrow> (if pos l < 0 then None else key P nl (nat (pos l)));
                       Some (if \<not> compare_keys P t k kl then l else Iterator None 0)
                     })
              }
            else Some (Iterator None 0)
          })"

definition erase_unique ::
  "('k, 'v, 'c) params \<Rightarrow> ('v, 'c) btree \<Rightarrow> 'k \<Rightarrow> (('v, 'c) btree \<times> int) option" where
  "erase_unique P t k =
     do {
       it \<leftarrow> internal_find_unique P t k (Iterator (root t) 0);
       if node it = None then Some (t, 0)
       else do { (t', it') \<leftarrow> erase P t it; Some (t', 1) }
     }"

subsection \<open>Iteration\<close>

text \<open>
  The values visited by \<open>for (it = begin(); it != end(); ++it)\<close>, in that order; the
  loop is \<open>visit\<close>, started at \<open>begin()\<close>.
\<close>

partial_function (option) visit :: "'v heap \<Rightarrow> iterator \<Rightarrow> iterator \<Rightarrow> 'v list \<Rightarrow> 'v list option" where
  "visit h it e acc =
     (if it = e then Some (rev acc)
      else
        (case node it of
           None \<Rightarrow> None
         | Some a \<Rightarrow>
             (case h a of
                None \<Rightarrow> None
              | Some n \<Rightarrow>
                  if pos it < 0 \<or> pos it \<ge> int (length (values n)) then None
                  else
                    (case increment h it of
                       None \<Rightarrow> None
                     | Some it' \<Rightarrow> visit h it' e (values n ! nat (pos it) # acc)))))"

declare visit.simps [code]

definition contents :: "('v, 'c) btree \<Rightarrow> 'v list option" where
  "contents t = do { b \<leftarrow> tree_begin t; e \<leftarrow> tree_end t; visit (nodes t) b e [] }"

subsection \<open>Clearing and assignment\<close>

text \<open>
  \<open>internal_clear(node)\<close> deletes a node and all of its children; the index counts the
  children of an internal node that have been cleared already. \<open>clear()\<close> clears the root
  and nulls the root pointer.
\<close>

partial_function (option) internal_clear ::
  "('v, 'c) btree \<Rightarrow> addr option \<Rightarrow> nat \<Rightarrow> ('v, 'c) btree option" where
  "internal_clear t a i =
     (case a of
        None \<Rightarrow> None
      | Some a' \<Rightarrow>
          (case nodes t a' of
             None \<Rightarrow> None
           | Some n \<Rightarrow>
               if leaf n then delete_leaf_node t a'
               else if i \<le> count n then
                 (case child (nodes t) a' i of
                    None \<Rightarrow> None
                  | Some c \<Rightarrow>
                      do {
                        t' \<leftarrow> internal_clear t c 0;
                        internal_clear t' a (i + 1)
                      })
               else if a = root t then delete_internal_root_node t
               else delete_internal_node t a'))"

declare internal_clear.simps [code]

definition clear :: "('v, 'c) btree \<Rightarrow> ('v, 'c) btree option" where
  "clear t =
     (case root t of
        None \<Rightarrow> Some t
      | Some r \<Rightarrow> do { t' \<leftarrow> internal_clear t (Some r) 0; Some (t'\<lparr>root := None\<rparr>) })"

text \<open>
  Assignment works on tree objects, which may be one and the same object: a world maps
  the address of a tree object to its state, and \<open>assign\<close> and \<open>operator=\<close> take the
  addresses of \<open>*this\<close> and of \<open>x\<close>. \<open>assign(x)\<close> clears this tree, copies the functor
  (the allocator has no state of its own to copy), and then walks \<open>x\<close> from \<open>begin()\<close> to
  \<open>end()\<close>, inserting every value at the end of this tree. The values are references
  into the nodes of \<open>x\<close>, which are not nodes of this tree's store; when \<open>x\<close> is this
  tree, it is empty after the clearing and the walk visits nothing.
\<close>

type_synonym ('v, 'c) world = "nat \<Rightarrow> ('v, 'c) btree option"

definition deref :: "'v heap \<Rightarrow> iterator \<Rightarrow> 'v option" where
  "deref h it =
     do {
       a \<leftarrow> node it;
       n \<leftarrow> h a;
       if 0 \<le> pos it \<and> pos it < int (length (values n)) then Some (values n ! nat (pos it))
       else None
     }"

partial_function (option) assign_loop ::
  "('k, 'v, 'c) params \<Rightarrow> ('v, 'c) world \<Rightarrow> nat \<Rightarrow> nat \<Rightarrow> iterator \<Rightarrow> ('v, 'c) world option" where
  "assign_loop P w this x it =
     (case (w this, w x) of
        (Some t, Some tx) \<Rightarrow>
          (case tree_end tx of
             None \<Rightarrow> None
           | Some e \<Rightarrow>
               if it = e then Some w
               else
                 (case deref (nodes tx) it of
                    None \<Rightarrow> None
                  | Some v \<Rightarrow>
                      (case (if empty t then insert_multi P t (params_key P v) (Outside v)
                             else do { e' \<leftarrow> tree_end t;
                                       internal_insert P t e' (Outside v) }) of
                         None \<Rightarrow> None
                       | Some r \<Rightarrow>
                           (case (w(this \<mapsto> fst r)) x of
                              None \<Rightarrow> None
                            | Some tx' \<Rightarrow>
                                (case increment (nodes tx') it of
                                   None \<Rightarrow> None
                                 | Some it' \<Rightarrow>
                                     assign_loop P (w(this \<mapsto> fst r)) this x it')))))
      | _ \<Rightarrow> None)"

declare assign_loop.simps [code]

definition assign ::
  "('k, 'v, 'c) params \<Rightarrow> ('v, 'c) world \<Rightarrow> nat \<Rightarrow> nat \<Rightarrow> ('v, 'c) world option" where
  "assign P w this x =
     do {
       t \<leftarrow> w this;
       t1 \<leftarrow> clear t;
       let w1 = w(this \<mapsto> t1);
       tx \<leftarrow> w1 x;
       let w2 = w1(this \<mapsto> t1\<lparr>key_comp := key_comp tx\<rparr>);
       tx' \<leftarrow> w2 x;
       b \<leftarrow> tree_begin tx';
       assign_loop P w2 this x b
     }"

text \<open>\<open>operator=\<close>: assignment of a tree to itself returns at once.\<close>

definition operator_assign ::
  "('k, 'v, 'c) params \<Rightarrow> ('v, 'c) world \<Rightarrow> nat \<Rightarrow> nat \<Rightarrow> ('v, 'c) world option" where
  "operator_assign P w this x = (if x = this then Some w else assign P w this x)"

section \<open>Specifications and examples\<close>

text \<open>
  The keys of the values a node holds, a three-way comparison that is consistent on a set
  of keys (antisymmetric in sign, and transitive), and the result a compare-to search
  over a sorted key list has to return: the first position with an equal key, marked
  with \<open>kExactMatch\<close>, and otherwise the first position whose key is not less.
\<close>

definition node_keys :: "('k, 'v, 'c) params \<Rightarrow> 'v btree_node \<Rightarrow> 'k list" where
  "node_keys P n = map (params_key P) (take (count n) (values n))"

definition three_way_on :: "'k set \<Rightarrow> ('k \<Rightarrow> 'k \<Rightarrow> int) \<Rightarrow> bool" where
  "three_way_on S cmp \<longleftrightarrow>
     (\<forall>a\<in>S. \<forall>b\<in>S. (cmp a b < 0) = (cmp b a > 0)) \<and>
     (\<forall>a\<in>S. \<forall>b\<in>S. \<forall>c\<in>S. cmp a b \<le> 0 \<longrightarrow> cmp b c \<le> 0 \<longrightarrow> cmp a c \<le> 0)"

fun first_index :: "('a \<Rightarrow> bool) \<Rightarrow> 'a list \<Rightarrow> nat" where
  "first_index p [] = 0"
| "first_index p (x # xs) = (if p x then 0 else Suc (first_index p xs))"

definition compare_to_search_spec :: "('k \<Rightarrow> 'k \<Rightarrow> int) \<Rightarrow> 'k list \<Rightarrow> 'k \<Rightarrow> int" where
  "compare_to_search_spec cmp ks k =
     (if \<exists>x \<in> set ks. cmp x k = 0
      then int (first_index (\<lambda>x. cmp x k = 0) ks) OR kExactMatch
      else int (first_index (\<lambda>x. \<not> cmp x k < 0) ks))"

text \<open>The usual three-way comparison of integers.\<close>

definition int_compare_to :: "int \<Rightarrow> int \<Rightarrow> int" where
  "int_compare_to a b = (if a < b then - 1 else if a = b then 0 else 1)"

text \<open>
  A set of \<open>int\<close> with \<open>std::less\<close> and a target node size of 48 bytes on a 64-bit
  machine, which gives nodes of four values.
\<close>

definition small_set_params :: "(int, int, unit) params" where
  "small_set_params =
     \<lparr> params_key = (\<lambda>v. v),
       compare_class = Plain_Compare (\<lambda>_ a b. a < b),
       default_compare = (),
       key_is_arithmetic = True,
       default_value = 0,
       kTargetNodeSize = 48,
       kValueSize = 8,
       sizeof_pointer = 8,
       sizeof_field_type = 1 \<rparr>"

definition example_node :: "int btree_node" where
  "example_node =
     \<lparr> leaf = True, position = 0, max_count = 4, count = 4, parent = Some 0,
       values = [1, 3, 3, 5], children = [], rightmost = None, size = 0 \<rparr>"

text \<open>
  A set of keys that wrap an \<open>int\<close> (so the key type is not arithmetic) with a compare-to
  functor that has state: a flag that reverses the order. The default-constructed functor
  compares in ascending order.
\<close>

definition flag_compare_params :: "(int, int, bool) params" where
  "flag_compare_params =
     \<lparr> params_key = (\<lambda>v. v),
       compare_class = Compare_To (\<lambda>descending a b.
         if descending then int_compare_to b a else int_compare_to a b),
       default_compare = False,
       key_is_arithmetic = False,
       default_value = 0,
       kTargetNodeSize = 48,
       kValueSize = 8,
       sizeof_pointer = 8,
       sizeof_field_type = 1 \<rparr>"

text \<open>
  The same with a functor that compares keys by their remainder modulo its state; the
  default-constructed functor has modulus 2.
\<close>

definition mod_compare_params :: "(int, int, int) params" where
  "mod_compare_params =
     \<lparr> params_key = (\<lambda>v. v),
       compare_class = Compare_To (\<lambda>m a b. int_compare_to (a mod m) (b mod m)),
       default_compare = 2,
       key_is_arithmetic = False,
       default_value = 0,
       kTargetNodeSize = 48,
       kValueSize = 8,
       sizeof_pointer = 8,
       sizeof_field_type = 1 \<rparr>"

text \<open>A sequence of \<open>insert_unique\<close> calls, each with the value and its own key.\<close>

fun insert_unique_all ::
  "('k, 'v, 'c) params \<Rightarrow> ('v, 'c) btree \<Rightarrow> 'v list \<Rightarrow> ('v, 'c) btree option" where
  "insert_unique_all P t [] = Some t"
| "insert_unique_all P t (v # vs) =
     (case insert_unique P t (params_key P v) (Outside v) of
        None \<Rightarrow> None
      | Some r \<Rightarrow> insert_unique_all P (fst r) vs)"

text \<open>
  The occupancy bounds of the node at an address: a node that is not the root holds at
  least \<open>lower\<close> values and at most \<open>max_count\<close>.
\<close>

definition node_occupancy :: "nat \<Rightarrow> ('v, 'c) btree \<Rightarrow> addr \<Rightarrow> bool" where
  "node_occupancy lower t a =
     (case nodes t a of
        None \<Rightarrow> True
      | Some n \<Rightarrow> root t = Some a \<or> (lower \<le> count n \<and> count n \<le> max_count n))"

text \<open>
  Four example trees: the values 1 to 5 inserted in this order into an empty set with
  nodes of four values; 1 and 2 inserted into an empty set whose functor instance compares
  in descending order; 1 inserted into an empty set whose functor instance compares
  modulo 10; and 5 inserted with \<open>insert_multi\<close> into an empty multiset with nodes of
  four values.
\<close>

definition five_ascending :: "(int, unit) btree option" where
  "five_ascending = insert_unique_all small_set_params (btree_init ()) [1, 2, 3, 4, 5]"

definition descending_two :: "(int, bool) btree option" where
  "descending_two = insert_unique_all flag_compare_params (btree_init True) [1, 2]"

definition modulo_ten_one :: "(int, int) btree option" where
  "modulo_ten_one = insert_unique_all mod_compare_params (btree_init 10) [1]"

definition one_five :: "(int, unit) btree option" where
  "one_five = map_option fst (insert_multi small_set_params (btree_init ()) 5 (Outside 5))"

section \<open>Searching a node: the compare-to searches\<close>

lemma first_index_le: "first_index p xs \<le> length xs"
  by (induction xs) auto

lemma first_index_before: "i < first_index p xs \<Longrightarrow> \<not> p (xs ! i)"
proof (induction xs arbitrary: i)
  case Nil
  then show ?case by simp
next
  case (Cons x xs)
  then show ?case by (cases i) (auto split: if_splits)
qed

lemma first_index_at: "first_index p xs < length xs \<Longrightarrow> p (xs ! first_index p xs)"
  by (induction xs) auto

lemma first_index_unique:
  assumes "q \<le> length xs" "\<forall>i<q. \<not> p (xs ! i)" "q < length xs \<longrightarrow> p (xs ! q)"
  shows "first_index p xs = q"
proof (rule ccontr)
  let ?f = "first_index p xs"
  assume "?f \<noteq> q"
  then consider "?f < q" | "q < ?f" by linarith
  then show False
  proof cases
    case 1
    then have "?f < length xs" using assms(1) by simp
    then have "p (xs ! ?f)" by (rule first_index_at)
    then show False using assms(2) 1 by simp
  next
    case 2
    then have "q < length xs" using first_index_le[of p xs] by simp
    then have "p (xs ! q)" using assms(3) by simp
    then show False using first_index_before[OF 2] by simp
  qed
qed

lemma key_node_keys:
  "i < count n \<Longrightarrow> count n \<le> length (values n) \<Longrightarrow> key P n i = Some (node_keys P n ! i)"
  by (simp add: key_def node_keys_def)

lemma linear_search_compare_to_first:
  assumes "count n \<le> length (values n)" "s \<le> q" "q \<le> count n"
    and "\<forall>i. s \<le> i \<and> i < q \<longrightarrow> cmp (node_keys P n ! i) k < 0"
    and "q < count n \<longrightarrow> \<not> cmp (node_keys P n ! q) k < 0"
  shows "linear_search_compare_to P n k s (count n) cmp =
         Some (if q < count n \<and> cmp (node_keys P n ! q) k = 0 then int q OR kExactMatch else int q)"
  using assms(2,4)
proof (induction "q - s" arbitrary: s)
  case 0
  then have [simp]: "s = q" by simp
  show ?case
  proof (cases "q < count n")
    case True
    then show ?thesis using assms(1,5)
      by (subst linear_search_compare_to.simps) (auto simp: key_node_keys Let_def)
  next
    case False
    then show ?thesis using assms(3)
      by (subst linear_search_compare_to.simps) auto
  qed
next
  case (Suc d)
  then have sq: "s < q" by simp
  then have lt: "s < count n" using assms(3) by simp
  have less: "cmp (node_keys P n ! s) k < 0" using Suc.prems sq by simp
  have "linear_search_compare_to P n k s (count n) cmp = linear_search_compare_to P n k (s + 1) (count n) cmp"
    using lt less assms(1) by (subst linear_search_compare_to.simps) (simp add: key_node_keys Let_def)
  also have "\<dots> = Some (if q < count n \<and> cmp (node_keys P n ! q) k = 0 then int q OR kExactMatch else int q)"
    using Suc.hyps(1)[of "s + 1"] Suc.hyps(2) Suc.prems sq by simp
  finally show ?case .
qed


lemma binary_search_compare_to_first:
  assumes len: "count n \<le> length (values n)"
    and tw: "three_way_on (insert k (set (node_keys P n))) cmp"
    and srt: "sorted_wrt (\<lambda>a b. cmp a b \<le> 0) (node_keys P n)"
    and "s \<le> e" "e \<le> count n"
  shows "\<exists>q. s \<le> q \<and> q \<le> e \<and> (\<forall>i. s \<le> i \<and> i < q \<longrightarrow> cmp (node_keys P n ! i) k < 0) \<and>
           (q < e \<longrightarrow> \<not> cmp (node_keys P n ! q) k < 0) \<and>
           binary_search_compare_to P n k s e cmp =
             Some (if q < e \<and> cmp (node_keys P n ! q) k = 0 then int q OR kExactMatch else int q)"
  using assms(4,5)
proof (induction "e - s" arbitrary: s e rule: less_induct)
  case less
  let ?ks = "node_keys P n"
  let ?R = "\<lambda>s e q. s \<le> q \<and> q \<le> e \<and> (\<forall>i. s \<le> i \<and> i < q \<longrightarrow> cmp (?ks ! i) k < 0) \<and>
           (q < e \<longrightarrow> \<not> cmp (?ks ! q) k < 0) \<and>
           binary_search_compare_to P n k s e cmp =
             Some (if q < e \<and> cmp (?ks ! q) k = 0 then int q OR kExactMatch else int q)"
  have lks: "length ?ks = count n" using len by (simp add: node_keys_def)
  have mem: "\<And>i. i < count n \<Longrightarrow> ?ks ! i \<in> insert k (set ?ks)" using lks by simp
  have ord: "\<And>i j. i < j \<Longrightarrow> j < count n \<Longrightarrow> cmp (?ks ! i) (?ks ! j) \<le> 0"
    using srt lks by (simp add: sorted_wrt_iff_nth_less)
  have trans: "\<And>a b c. a \<in> insert k (set ?ks) \<Longrightarrow> b \<in> insert k (set ?ks) \<Longrightarrow> c \<in> insert k (set ?ks)
      \<Longrightarrow> cmp a b \<le> 0 \<Longrightarrow> cmp b c \<le> 0 \<Longrightarrow> cmp a c \<le> 0"
    using tw unfolding three_way_on_def by blast
  have anti: "\<And>a b. a \<in> insert k (set ?ks) \<Longrightarrow> b \<in> insert k (set ?ks) \<Longrightarrow> (cmp a b < 0) = (cmp b a > 0)"
    using tw unfolding three_way_on_def by blast
  show ?case
  proof (cases "s = e")
    case True
    have "binary_search_compare_to P n k s e cmp = Some (int s)"
      using True by (subst binary_search_compare_to.simps) simp
    then have "?R s e s" using True by simp
    then show ?thesis by blast
  next
    case False
    then have se: "s < e" using less.prems by simp
    define mid where "mid = (s + e) div 2"
    have midb: "s \<le> mid" "mid < e" using se by (auto simp: mid_def)
    then have midc: "mid < count n" using less.prems by simp
    have kmid: "key P n mid = Some (?ks ! mid)" using midc len by (rule key_node_keys)
    define c where "c = cmp (?ks ! mid) k"
    have unfold: "binary_search_compare_to P n k s e cmp =
       (if c < 0 then binary_search_compare_to P n k (mid + 1) e cmp
        else if c > 0 then binary_search_compare_to P n k s mid cmp
        else (case binary_search_compare_to P n k s mid cmp of None \<Rightarrow> None
              | Some s' \<Rightarrow> Some (s' OR kExactMatch)))"
      using se kmid by (subst binary_search_compare_to.simps) (simp add: Let_def mid_def[symmetric] c_def[symmetric])
    consider "c < 0" | "c > 0" | "c = 0" by linarith
    then show ?thesis
    proof cases
      case 1
      have below: "cmp (?ks ! i) k < 0" if "i \<le> mid" for i
      proof (cases "i = mid")
        case True
        then show ?thesis using 1 c_def by simp
      next
        case F: False
        then have im: "i < mid" using that by simp
        have ic: "i < count n" using im midc by simp
        have a: "cmp (?ks ! i) (?ks ! mid) \<le> 0" using ord[OF im midc] .
        have b: "cmp (?ks ! mid) k \<le> 0" using 1 c_def by simp
        have le: "cmp (?ks ! i) k \<le> 0"
          using trans[OF mem[OF ic] mem[OF midc] _ a b] by simp
        have "cmp (?ks ! i) k \<noteq> 0"
        proof
          assume eq: "cmp (?ks ! i) k = 0"
          have "\<not> cmp k (?ks ! i) < 0" using anti[OF _ mem[OF ic], of k] eq by simp
          then have "\<not> cmp (?ks ! i) k > 0 \<and> \<not> cmp k (?ks ! i) < 0" using eq by simp
          have ki: "cmp k (?ks ! i) \<le> 0" using anti[OF mem[OF ic], of k] eq by simp
          have "cmp k (?ks ! mid) \<le> 0" using trans[OF _ mem[OF ic] mem[OF midc] ki a] by simp
          moreover have "cmp k (?ks ! mid) > 0" using anti[OF mem[OF midc], of k] 1 c_def by simp
          ultimately show False by simp
        qed
        then show ?thesis using le by simp
      qed
      have "e - (mid + 1) < e - s" using midb by simp
      from less.hyps[OF this] midb less.prems obtain q where q: "?R (mid + 1) e q" by auto
      have all: "\<forall>i. s \<le> i \<and> i < q \<longrightarrow> cmp (?ks ! i) k < 0"
      proof (intro allI impI)
        fix i assume "s \<le> i \<and> i < q"
        then show "cmp (?ks ! i) k < 0" using q below[of i] by (cases "i \<le> mid") auto
      qed
      have "binary_search_compare_to P n k s e cmp = binary_search_compare_to P n k (mid + 1) e cmp"
        using unfold 1 by simp
      then have "?R s e q" using q all midb by simp
      then show ?thesis by blast
    next
      case 2
      have "mid - s < e - s" using midb by simp
      from less.hyps[OF this] midb less.prems obtain q where q: "?R s mid q" by auto
      have eq: "binary_search_compare_to P n k s e cmp = binary_search_compare_to P n k s mid cmp"
        using unfold 2 by simp
      have "?R s e q"
      proof (cases "q = mid")
        case True
        then show ?thesis using q eq 2 c_def midb by simp
      next
        case False
        then show ?thesis using q eq midb by simp
      qed
      then show ?thesis by blast
    next
      case 3
      have "mid - s < e - s" using midb by simp
      from less.hyps[OF this] midb less.prems obtain q where q: "?R s mid q" by auto
      have eqq: "cmp (?ks ! q) k = 0"
      proof (cases "q = mid")
        case True
        then show ?thesis using 3 c_def by simp
      next
        case F: False
        then have qm: "q < mid" using q by simp
        have qc: "q < count n" using qm midc by simp
        have a: "cmp (?ks ! q) (?ks ! mid) \<le> 0" using ord[OF qm midc] .
        have b: "cmp (?ks ! mid) k \<le> 0" using 3 c_def by simp
        have "cmp (?ks ! q) k \<le> 0" using trans[OF mem[OF qc] mem[OF midc] _ a b] by simp
        then show ?thesis using q qm by simp
      qed
      have "binary_search_compare_to P n k s e cmp =
              (case binary_search_compare_to P n k s mid cmp of None \<Rightarrow> None | Some s' \<Rightarrow> Some (s' OR kExactMatch))"
        using unfold 3 by simp
      also have "\<dots> = Some (int q OR kExactMatch)"
        using q by (simp add: or.assoc)
      finally have "?R s e q" using q midb eqq by simp
      then show ?thesis by blast
    qed
  qed
qed


lemma exact_match_bit_clear: "q < 2 ^ 30 \<Longrightarrow> int q AND kExactMatch = 0"
proof -
  assume "q < 2 ^ 30"
  then have "int q < 2 ^ 30" by (metis of_nat_less_iff of_nat_numeral of_nat_power)
  then have "int q div 2 ^ 30 = 0" by simp
  then have "\<not> bit (int q) 30" by (simp add: bit_iff_odd)
  then have "int q AND 2 ^ 30 = 0" using and_exp_eq_0_iff_not_bit[of "int q" 30] by blast
  moreover have "kExactMatch = 2 ^ 30" by (simp add: kExactMatch_def)
  ultimately show ?thesis by simp
qed

lemma compare_to_search_spec_first:
  assumes tw: "three_way_on (insert k (set ks)) cmp"
    and srt: "sorted_wrt (\<lambda>a b. cmp a b \<le> 0) ks"
    and q: "q = first_index (\<lambda>x. \<not> cmp x k < 0) ks"
  shows "compare_to_search_spec cmp ks k =
         (if q < length ks \<and> cmp (ks ! q) k = 0 then int q OR kExactMatch else int q)"
proof (cases "\<exists>x \<in> set ks. cmp x k = 0")
  case True
  then obtain j where j: "j < length ks" "cmp (ks ! j) k = 0" by (auto simp: in_set_conv_nth)
  have before: "\<And>i. i < q \<Longrightarrow> cmp (ks ! i) k < 0"
    using first_index_before[of _ "\<lambda>x. \<not> cmp x k < 0" ks] q by auto
  have qj: "q \<le> j" using before[of j] j by (cases "j < q") auto
  then have ql: "q < length ks" using j by simp
  have nl: "\<not> cmp (ks ! q) k < 0" using first_index_at[of "\<lambda>x. \<not> cmp x k < 0" ks] ql q by simp
  have eq: "cmp (ks ! q) k = 0"
  proof (cases "q = j")
    case True
    then show ?thesis using j by simp
  next
    case False
    then have "q < j" using qj by simp
    then have a: "cmp (ks ! q) (ks ! j) \<le> 0" using srt j by (simp add: sorted_wrt_iff_nth_less)
    have "cmp (ks ! q) k \<le> 0"
      using tw a j ql unfolding three_way_on_def
      by (metis insertI1 insertI2 nth_mem order_refl)
    then show ?thesis using nl by simp
  qed
  have "first_index (\<lambda>x. cmp x k = 0) ks = q"
  proof (rule first_index_unique)
    show "q \<le> length ks" using ql by simp
    show "\<forall>i<q. \<not> cmp (ks ! i) k = 0" using before by fastforce
    show "q < length ks \<longrightarrow> cmp (ks ! q) k = 0" using eq by simp
  qed
  then show ?thesis using True ql eq by (simp add: compare_to_search_spec_def)
next
  case False
  then have "\<not> (q < length ks \<and> cmp (ks ! q) k = 0)" using nth_mem by blast
  then show ?thesis using False q by (auto simp: compare_to_search_spec_def)
qed

text \<open>
  Claim C6. Let the first \<open>count\<close> keys of a node be sorted in non-decreasing order
  under a three-way comparison that is consistent on these keys and the query key \<open>k\<close>.
  Then \<open>linear_search_compare_to\<close> and \<open>binary_search_compare_to\<close> over \<open>[0, count)\<close>
  both return \<open>p | kExactMatch\<close> for the smallest position \<open>p\<close> whose key compares equal
  to \<open>k\<close> when there is one, and otherwise the position of the first key that is not less
  than \<open>k\<close> (\<open>count\<close> when all keys are less), with the \<open>kExactMatch\<close> bit clear. The
  counters are 8 or 16 bits wide, so \<open>count\<close> is below \<open>2 ^ 30\<close>.
\<close>

theorem compare_to_searches_return_first_match:
  assumes "count n \<le> length (values n)" and "count n < 2 ^ 30"
    and "three_way_on (insert k (set (node_keys P n))) cmp"
    and "sorted_wrt (\<lambda>a b. cmp a b \<le> 0) (node_keys P n)"
  shows "linear_search_compare_to P n k 0 (count n) cmp =
           Some (compare_to_search_spec cmp (node_keys P n) k)
       \<and> binary_search_compare_to P n k 0 (count n) cmp =
           Some (compare_to_search_spec cmp (node_keys P n) k)
       \<and> ((\<forall>x \<in> set (node_keys P n). cmp x k \<noteq> 0) \<longrightarrow>
            compare_to_search_spec cmp (node_keys P n) k AND kExactMatch = 0)"
proof -
  let ?ks = "node_keys P n"
  define q where "q = first_index (\<lambda>x. \<not> cmp x k < 0) ?ks"
  have lks: "length ?ks = count n" using assms(1) by (simp add: node_keys_def)
  have ql: "q \<le> count n" using first_index_le[of "\<lambda>x. \<not> cmp x k < 0" ?ks] lks q_def by simp
  have before: "\<forall>i. 0 \<le> i \<and> i < q \<longrightarrow> cmp (?ks ! i) k < 0"
    using first_index_before[of _ "\<lambda>x. \<not> cmp x k < 0" ?ks] q_def by auto
  have at: "q < count n \<longrightarrow> \<not> cmp (?ks ! q) k < 0"
    using first_index_at[of "\<lambda>x. \<not> cmp x k < 0" ?ks] q_def lks by simp
  have spec: "compare_to_search_spec cmp ?ks k =
         (if q < count n \<and> cmp (?ks ! q) k = 0 then int q OR kExactMatch else int q)"
    using compare_to_search_spec_first[OF assms(3,4) q_def] lks by simp
  have lin: "linear_search_compare_to P n k 0 (count n) cmp = Some (compare_to_search_spec cmp ?ks k)"
    using linear_search_compare_to_first[of n 0 q cmp P k] assms(1) ql before at spec by simp
  obtain q' where q': "q' \<le> count n" "\<forall>i. 0 \<le> i \<and> i < q' \<longrightarrow> cmp (?ks ! i) k < 0"
      "q' < count n \<longrightarrow> \<not> cmp (?ks ! q') k < 0"
      "binary_search_compare_to P n k 0 (count n) cmp =
         Some (if q' < count n \<and> cmp (?ks ! q') k = 0 then int q' OR kExactMatch else int q')"
    using binary_search_compare_to_first[OF assms(1,3,4), of 0 "count n"] by auto
  have "first_index (\<lambda>x. \<not> cmp x k < 0) ?ks = q'"
    using q' lks by (intro first_index_unique) auto
  then have "q' = q" using q_def by simp
  then have bin: "binary_search_compare_to P n k 0 (count n) cmp = Some (compare_to_search_spec cmp ?ks k)"
    using q'(4) spec by simp
  have clear: "(\<forall>x \<in> set ?ks. cmp x k \<noteq> 0) \<longrightarrow> compare_to_search_spec cmp ?ks k AND kExactMatch = 0"
  proof
    assume "\<forall>x \<in> set ?ks. cmp x k \<noteq> 0"
    then have "compare_to_search_spec cmp ?ks k = int q"
      using q_def by (auto simp: compare_to_search_spec_def)
    moreover have "q < 2 ^ 30" using ql assms(2) by simp
    ultimately show "compare_to_search_spec cmp ?ks k AND kExactMatch = 0"
      using exact_match_bit_clear by simp
  qed
  show ?thesis using lin bin clear by simp
qed

theorem compare_to_searches_return_first_match_witness:
  "count example_node \<le> length (values example_node) \<and> count example_node < 2 ^ 30
   \<and> three_way_on (insert 3 (set (node_keys flag_compare_params example_node))) int_compare_to
   \<and> sorted_wrt (\<lambda>a b. int_compare_to a b \<le> 0) (node_keys flag_compare_params example_node)
   \<and> linear_search_compare_to flag_compare_params example_node 3 0 (count example_node) int_compare_to
        = Some (1 OR kExactMatch)
   \<and> binary_search_compare_to flag_compare_params example_node 3 0 (count example_node) int_compare_to
        = Some (1 OR kExactMatch)"
proof -
  have h1: "count example_node \<le> length (values example_node)" by (simp add: example_node_def)
  have h2: "count example_node < 2 ^ 30" by (simp add: example_node_def)
  have ks: "node_keys flag_compare_params example_node = [1, 3, 3, 5]"
    by (simp add: node_keys_def example_node_def flag_compare_params_def)
  have h3: "three_way_on (insert 3 (set (node_keys flag_compare_params example_node))) int_compare_to"
    by (simp add: ks three_way_on_def int_compare_to_def)
  have h4: "sorted_wrt (\<lambda>a b. int_compare_to a b \<le> 0) (node_keys flag_compare_params example_node)"
    by (simp add: ks int_compare_to_def)
  have sp: "compare_to_search_spec int_compare_to [1, 3, 3, 5] 3 = 1 OR kExactMatch"
    by (simp add: compare_to_search_spec_def int_compare_to_def)
  show ?thesis
    using compare_to_searches_return_first_match[OF h1 h2 h3 h4] h1 h2 h3 h4
    by (simp add: ks sp)
qed

section \<open>Node capacity\<close>

lemma sizeof_base_fields_map_params:
  "ps = 4 \<or> ps = 8 \<Longrightarrow>
   sizeof_base_fields (btree_map_params 4 4 256 ps :: (int, int \<times> int, unit) params) = 2 * ps"
  by (auto simp: sizeof_base_fields_def btree_map_params_def node_count_type_size_def align_up_def Let_def)

text \<open>
  Claim C8. \<open>kNodeValues\<close> is \<open>kNodeTargetValues\<close>, the quotient
  \<open>(kTargetNodeSize - sizeof(base fields)) / kValueSize\<close> as the source computes it, when
  that is at least 3, and 3 otherwise; the quotient is the one of the natural numbers
  whenever the target size is not smaller than the base fields (so that the unsigned
  subtraction does not wrap). For a map from \<open>int32\<close> to \<open>int32\<close> with a target node size
  of 256 bytes, on a machine with 4 or 8 byte pointers, \<open>kNodeValues\<close> is at least 28.
\<close>

theorem kNodeValues_formula:
  "kNodeValues P = (if 3 \<le> kNodeTargetValues P then kNodeTargetValues P else 3)
   \<and> (sizeof_base_fields P \<le> kTargetNodeSize P \<and> kTargetNodeSize P < size_t_modulus P \<longrightarrow>
        kNodeTargetValues P = (kTargetNodeSize P - sizeof_base_fields P) div kValueSize P)
   \<and> (ps = 4 \<or> ps = 8 \<longrightarrow>
        28 \<le> kNodeValues (btree_map_params 4 4 256 ps :: (int, int \<times> int, unit) params))"
proof (intro conjI impI)
  show "kNodeValues P = (if 3 \<le> kNodeTargetValues P then kNodeTargetValues P else 3)"
    by (simp add: kNodeValues_def)
next
  assume a: "sizeof_base_fields P \<le> kTargetNodeSize P \<and> kTargetNodeSize P < size_t_modulus P"
  let ?m = "size_t_modulus P" and ?b = "sizeof_base_fields P" and ?t = "kTargetNodeSize P"
  have b: "?b mod ?m = ?b" using a by simp
  have "(?t + ?m - ?b) mod ?m = (?t - ?b + ?m) mod ?m" using a by simp
  also have "\<dots> = (?t - ?b) mod ?m" by simp
  also have "\<dots> = ?t - ?b" using a by (simp add: less_imp_diff_less)
  finally show "kNodeTargetValues P = (?t - ?b) div kValueSize P"
    by (simp add: kNodeTargetValues_def b)
next
  assume ps: "ps = 4 \<or> ps = 8"
  let ?P = "btree_map_params 4 4 256 ps :: (int, int \<times> int, unit) params"
  have sz: "sizeof_base_fields ?P = 2 * ps" using ps by (rule sizeof_base_fields_map_params)
  have f: "kTargetNodeSize ?P = 256" "kValueSize ?P = 8" "size_t_modulus ?P = 2 ^ (8 * ps)"
    by (simp_all add: size_t_modulus_def btree_map_params_def)
  have "kNodeTargetValues ?P = ((256 + 2 ^ (8 * ps) - (2 * ps) mod 2 ^ (8 * ps)) mod 2 ^ (8 * ps)) div 8"
    unfolding kNodeTargetValues_def sz f ..
  then have "28 \<le> kNodeTargetValues ?P" using ps by auto
  then show "28 \<le> kNodeValues ?P" by (simp add: kNodeValues_def)
qed

theorem kNodeValues_formula_witness:
  "sizeof_base_fields small_set_params \<le> kTargetNodeSize small_set_params
   \<and> kTargetNodeSize small_set_params < size_t_modulus small_set_params
   \<and> kNodeTargetValues small_set_params = 4
   \<and> kNodeValues small_set_params = 4
   \<and> 28 \<le> kNodeValues (btree_map_params 4 4 256 8 :: (int, int \<times> int, unit) params)"
proof -
  have sz: "sizeof_base_fields small_set_params = 16"
    by (simp add: sizeof_base_fields_def small_set_params_def align_up_def)
  have f: "kTargetNodeSize small_set_params = 48" "kValueSize small_set_params = 8"
    "size_t_modulus small_set_params = 2 ^ 64"
    by (simp_all add: size_t_modulus_def small_set_params_def)
  have h: "sizeof_base_fields small_set_params \<le> kTargetNodeSize small_set_params
     \<and> kTargetNodeSize small_set_params < size_t_modulus small_set_params"
    unfolding sz f by simp
  have v: "(kTargetNodeSize small_set_params - sizeof_base_fields small_set_params)
             div kValueSize small_set_params = 4"
    unfolding sz f by simp
  show ?thesis
    using kNodeValues_formula [of small_set_params 8] h v by simp
qed

section \<open>The lower bound of a node under a binary compare-to search\<close>

text \<open>
  Claim C9. For a key type that is not arithmetic and a compare-to functor class, the
  lower bound of a node is \<open>binary_search_compare_to\<close> run with the default-constructed
  functor; the functor instance passed in is not used, so any two instances give the same
  result.
\<close>

theorem binary_compare_to_lower_bound_ignores_comparator:
  assumes "compare_class P = Compare_To c3" and "\<not> key_is_arithmetic P"
  shows "node_lower_bound P n k cmp1 = node_lower_bound P n k cmp2
       \<and> node_lower_bound P n k cmp1 =
           binary_search_compare_to P n k 0 (count n) (c3 (default_compare P))"
  using assms by (simp add: node_lower_bound_def)

theorem binary_compare_to_lower_bound_ignores_comparator_witness:
  "compare_class flag_compare_params =
     Compare_To (\<lambda>descending a b. if descending then int_compare_to b a else int_compare_to a b)
   \<and> \<not> key_is_arithmetic flag_compare_params
   \<and> node_lower_bound flag_compare_params example_node 5 True
       = node_lower_bound flag_compare_params example_node 5 False
   \<and> node_lower_bound flag_compare_params example_node 5 True = Some (3 OR kExactMatch)"
proof -
  have h1: "compare_class flag_compare_params =
     Compare_To (\<lambda>descending a b. if descending then int_compare_to b a else int_compare_to a b)"
    by (simp add: flag_compare_params_def)
  have h2: "\<not> key_is_arithmetic flag_compare_params" by (simp add: flag_compare_params_def)
  have v: "node_lower_bound flag_compare_params example_node 5 False = Some (3 OR kExactMatch)"
    by (simp add: node_lower_bound_def binary_search_compare_to.simps key_def example_node_def
          flag_compare_params_def int_compare_to_def Let_def)
  have e: "node_lower_bound flag_compare_params example_node 5 True
       = node_lower_bound flag_compare_params example_node 5 False"
    using binary_compare_to_lower_bound_ignores_comparator [OF h1 h2, of example_node 5 True False]
    by (rule conjunct1)
  have "node_lower_bound flag_compare_params example_node 5 True = Some (3 OR kExactMatch)"
    using e v by (rule trans)
  with e h1 h2 show ?thesis by (simp only: simp_thms)
qed

section \<open>Self-assignment\<close>

text \<open>
  Claim C10. Assigning a tree object to itself with \<open>operator=\<close> returns without calling
  \<open>assign\<close> and leaves every tree object, this one included, as it was.
\<close>

theorem self_assignment_leaves_tree_unchanged:
  "operator_assign P w this this = Some w"
  by (simp add: operator_assign_def)

section \<open>Example runs\<close>

lemmas node_eval = read_ref_def update_node_def set_position_def set_count_def value_init_def value_destroy_def
  value_swap_def child_def assign_child_def set_child_def insert_value_def remove_value_def
  rebalance_right_to_left_def rebalance_left_to_right_def split_def merge_def set_parent_def swap_def
  key_def linear_search_plain_compare.simps linear_search_compare_to.simps
  binary_search_plain_compare.simps binary_search_compare_to.simps
  node_lower_bound_def node_upper_bound_def btree_upper_bound_adapter_def
  kExactMatch_def kMatchMask_def

lemmas iterator_eval = Iterator_def is_root_def increment_up.simps leftmost_leaf.simps
  increment_slow_def increment_def decrement_up.simps rightmost_leaf.simps decrement_slow_def
  decrement_def

lemmas tree_eval = btree_init_def compare_keys_def empty_def tree_rightmost_def tree_leftmost_def
  tree_begin_def tree_end_def tree_size_def add_size_def set_rightmost_def init_leaf_def
  init_internal_def init_root_def allocate_def new_internal_node_def new_internal_root_node_def
  new_leaf_node_def new_leaf_root_node_def delete_node_def delete_internal_node_def
  delete_internal_root_node_def delete_leaf_node_def internal_last.simps
  internal_locate_plain_compare.simps internal_locate_compare_to.simps internal_locate_def
  lower_bound_descent.simps internal_lower_bound_def upper_bound_descent.simps
  internal_upper_bound_def internal_end_def rebalance_with_left_def rebalance_with_right_def
  split_node_def split_root_def rebalance_with_siblings_def rebalance_or_split.simps
  internal_insert_def ensure_root_def insert_unique_def insert_multi_def
  visit.simps contents_def Let_def upt_rec

lemma small_set_params_fields:
  "params_key small_set_params = (\<lambda>v. v)"
  "compare_class small_set_params = Plain_Compare (\<lambda>_ a b. a < b)"
  "key_is_arithmetic small_set_params" "default_value small_set_params = 0"
  by (simp_all add: small_set_params_def)

lemma kNodeValues_small_set_params: "kNodeValues small_set_params = 4"
proof -
  have "sizeof_base_fields small_set_params = 16"
    by (simp add: sizeof_base_fields_def small_set_params_def align_up_def)
  then have "kNodeTargetValues small_set_params = 4"
    by (simp add: kNodeTargetValues_def size_t_modulus_def) (simp add: small_set_params_def)
  then show ?thesis by (simp add: kNodeValues_def)
qed

lemma flag_compare_params_fields:
  "params_key flag_compare_params = (\<lambda>v. v)"
  "compare_class flag_compare_params =
     Compare_To (\<lambda>descending a b. if descending then int_compare_to b a else int_compare_to a b)"
  "\<not> key_is_arithmetic flag_compare_params" "default_value flag_compare_params = 0"
  "default_compare flag_compare_params = False"
  by (simp_all add: flag_compare_params_def)

lemma kNodeValues_flag_compare_params: "kNodeValues flag_compare_params = 4"
proof -
  have "sizeof_base_fields flag_compare_params = 16"
    by (simp add: sizeof_base_fields_def flag_compare_params_def align_up_def)
  then have "kNodeTargetValues flag_compare_params = 4"
    by (simp add: kNodeTargetValues_def size_t_modulus_def) (simp add: flag_compare_params_def)
  then show ?thesis by (simp add: kNodeValues_def)
qed

lemma mod_compare_params_fields:
  "params_key mod_compare_params = (\<lambda>v. v)"
  "compare_class mod_compare_params = Compare_To (\<lambda>m a b. int_compare_to (a mod m) (b mod m))"
  "\<not> key_is_arithmetic mod_compare_params" "default_value mod_compare_params = 0"
  "default_compare mod_compare_params = 2"
  by (simp_all add: mod_compare_params_def)

lemma kNodeValues_mod_compare_params: "kNodeValues mod_compare_params = 4"
proof -
  have "sizeof_base_fields mod_compare_params = 16"
    by (simp add: sizeof_base_fields_def mod_compare_params_def align_up_def)
  then have "kNodeTargetValues mod_compare_params = 4"
    by (simp add: kNodeTargetValues_def size_t_modulus_def) (simp add: mod_compare_params_def)
  then show ?thesis by (simp add: kNodeValues_def)
qed

lemma five_ascending_value:
  "five_ascending = Some
     \<lparr>key_comp = (), root = Some 3,
      nodes = (\<lambda>_. None)
        (2 \<mapsto> \<lparr>leaf = True, position = 0, max_count = 4, count = 3, parent = Some 3,
                 values = [1, 2, 3, 0], children = [], rightmost = None, size = 0\<rparr>,
         3 \<mapsto> \<lparr>leaf = False, position = 0, max_count = 4, count = 1, parent = Some 2,
                 values = [4, 0, 0, 0], children = [Some 2, Some 4, None, None, None],
                 rightmost = Some 4, size = 5\<rparr>,
         4 \<mapsto> \<lparr>leaf = True, position = 1, max_count = 4, count = 1, parent = Some 3,
                 values = [5, 0, 0, 0], children = [], rightmost = None, size = 0\<rparr>),
      next_addr = 5\<rparr>"
  unfolding five_ascending_def
  by (simp add: node_eval iterator_eval tree_eval small_set_params_fields
        kNodeValues_small_set_params eval_nat_numeral)


text \<open>
  Claim C2, as stated, fails. After the five insertions the right leaf (address 4) is not
  the root and holds one value, fewer than \<open>kMinNodeValues = 2\<close>: the root leaf was full
  when 5 arrived at its end, and a split for an insertion at the very end moves no value
  to the new sibling.
\<close>

theorem occupancy_lower_bound_counterexample:
  "five_ascending \<noteq> None
   \<and> kMinNodeValues small_set_params = 2
   \<and> \<not> node_occupancy (kMinNodeValues small_set_params) (the five_ascending) 4"
  by (simp add: five_ascending_value node_occupancy_def kMinNodeValues_def
        kNodeValues_small_set_params)

lemma descending_two_value:
  "descending_two = Some
     \<lparr>key_comp = True, root = Some 1,
      nodes = (\<lambda>_. None)
        (1 \<mapsto> \<lparr>leaf = True, position = 0, max_count = 2, count = 2, parent = Some 1,
                 values = [1, 2], children = [], rightmost = None, size = 0\<rparr>),
      next_addr = 2\<rparr>"
  unfolding descending_two_def
  by (simp add: node_eval iterator_eval tree_eval flag_compare_params_fields
        kNodeValues_flag_compare_params int_compare_to_def eval_nat_numeral)

text \<open>
  Claim C1 against the code. The tree was constructed with a functor instance that
  compares in descending order, and 1 and 2 were inserted with \<open>insert_unique\<close>. The
  iteration visits 1 before 2, although 2 is less than 1 under the comparator of the
  tree: the descent searched with a default-constructed functor.
\<close>

theorem stateful_comparator_iteration_order:
  "descending_two \<noteq> None
   \<and> contents (the descending_two) = Some [1, 2]
   \<and> compare_keys flag_compare_params (the descending_two) 2 1"
  by (simp add: descending_two_value node_eval iterator_eval tree_eval
        flag_compare_params_fields int_compare_to_def eval_nat_numeral)

lemma modulo_ten_one_value:
  "modulo_ten_one = Some
     \<lparr>key_comp = 10, root = Some 0,
      nodes = (\<lambda>_. None)
        (0 \<mapsto> \<lparr>leaf = True, position = 0, max_count = 1, count = 1, parent = Some 0,
                 values = [1], children = [], rightmost = None, size = 0\<rparr>),
      next_addr = 1\<rparr>"
  unfolding modulo_ten_one_def
  by (simp add: node_eval iterator_eval tree_eval mod_compare_params_fields
        kNodeValues_mod_compare_params int_compare_to_def eval_nat_numeral)

text \<open>
  Claim C4 against the code. The tree compares keys modulo 10 and holds the key 1 only,
  so the key 3 is not present (1 is less than 3 under the comparator of the tree). Yet
  \<open>insert_unique\<close> of 3 reports the key as present and inserts nothing: the descent
  compared modulo 2, with a default-constructed functor.
\<close>

theorem stateful_comparator_insert_unique:
  "modulo_ten_one \<noteq> None
   \<and> contents (the modulo_ten_one) = Some [1]
   \<and> compare_keys mod_compare_params (the modulo_ten_one) 1 3
   \<and> insert_unique mod_compare_params (the modulo_ten_one) 3 (Outside 3)
       = Some (the modulo_ten_one, Iterator (Some 0) 0, False)"
  by (simp add: modulo_ten_one_value node_eval iterator_eval tree_eval
        mod_compare_params_fields int_compare_to_def eval_nat_numeral)

section \<open>Loops over the value slots\<close>

lemma for_loop_append:
  "for_loop (xs @ ys) body s =
     (case for_loop xs body s of None \<Rightarrow> None | Some s' \<Rightarrow> for_loop ys body s')"
  by (induction xs arbitrary: s) (auto split: option.splits)

lemma take_length_append: "take (length xs) (xs @ ys) = xs"
  by simp

lemma for_loop_snoc:
  "for_loop (xs @ [k]) body s =
     (case for_loop xs body s of None \<Rightarrow> None | Some s' \<Rightarrow> body k s')"
  by (simp add: for_loop_append split: option.split)

lemma value_init_node:
  "h a = Some n \<Longrightarrow> i < length (values n) \<Longrightarrow>
   value_init h a i x = Some (h(a \<mapsto> n\<lparr>values := (values n)[i := x]\<rparr>))"
  by (simp add: value_init_def)

lemma value_destroy_node:
  "h a = Some n \<Longrightarrow> i < length (values n) \<Longrightarrow> value_destroy h a i = Some h"
  by (simp add: value_destroy_def)

lemma set_count_node:
  "h a = Some n \<Longrightarrow> set_count h a c = Some (h(a \<mapsto> n\<lparr>count := c\<rparr>))"
  by (simp add: set_count_def update_node_def)

lemma value_swap_same_node:
  "h a = Some n \<Longrightarrow> i < length (values n) \<Longrightarrow> j < length (values n) \<Longrightarrow>
   value_swap h a i a j =
     Some (h(a \<mapsto> n\<lparr>values := (values n)[i := values n ! j, j := values n ! i]\<rparr>))"
  by (simp add: value_swap_def value_init_def)

lemma value_swap_two_nodes:
  "a \<noteq> x \<Longrightarrow> h a = Some na \<Longrightarrow> h x = Some nx \<Longrightarrow>
   i < length (values na) \<Longrightarrow> j < length (values nx) \<Longrightarrow>
   value_swap h a i x j =
     Some (h(a \<mapsto> na\<lparr>values := (values na)[i := values nx ! j]\<rparr>,
             x \<mapsto> nx\<lparr>values := (values nx)[j := values na ! i]\<rparr>))"
  by (simp add: value_swap_def value_init_def)

text \<open>Default-constructing a range of slots.\<close>

lemma heap_upd_same: "h a = Some n \<Longrightarrow> h(a \<mapsto> n) = h"
  by auto

lemma init_loop:
  assumes "h a = Some n"
  shows "lo \<le> hi \<Longrightarrow> hi \<le> length (values n) \<Longrightarrow>
   for_loop [lo ..< hi] (\<lambda>i h. value_init h a i x) h =
     Some (h(a \<mapsto> n\<lparr>values := take lo (values n) @ replicate (hi - lo) x @ drop hi (values n)\<rparr>))"
proof (induction hi)
  case 0
  have "h(a \<mapsto> n\<lparr>values := take lo (values n) @ replicate (0 - lo) x @ drop 0 (values n)\<rparr>) = h"
    using 0 assms by (simp add: heap_upd_same)
  moreover have "for_loop [lo ..< 0] (\<lambda>i h. value_init h a i x) h = Some h" by simp
  ultimately show "for_loop [lo ..< 0] (\<lambda>i h. value_init h a i x) h =
     Some (h(a \<mapsto> n\<lparr>values := take lo (values n) @ replicate (0 - lo) x @ drop 0 (values n)\<rparr>))"
    by (simp only:)
next
  case (Suc hi)
  let ?vs = "values n"
  let ?goal = "for_loop [lo ..< Suc hi] (\<lambda>i h. value_init h a i x) h =
     Some (h(a \<mapsto> n\<lparr>values := take lo ?vs @ replicate (Suc hi - lo) x @ drop (Suc hi) ?vs\<rparr>))"
  have ?goal
  proof (cases "lo = Suc hi")
    case True
    have "h(a \<mapsto> n\<lparr>values := take lo ?vs @ replicate (Suc hi - lo) x @ drop (Suc hi) ?vs\<rparr>) = h"
      using True assms by (simp add: heap_upd_same)
    moreover have "for_loop [lo ..< Suc hi] (\<lambda>i h. value_init h a i x) h = Some h"
      using True by simp
    ultimately show ?thesis by (simp only:)
  next
    case False
    then have lo: "lo \<le> hi" using Suc.prems by simp
    let ?mid = "take lo ?vs @ replicate (hi - lo) x @ drop hi ?vs"
    have len: "hi < length ?vs" using Suc.prems by simp
    have split: "[lo ..< Suc hi] = [lo ..< hi] @ [hi]" using lo by simp
    have upd: "?mid[hi := x] = take lo ?vs @ replicate (Suc hi - lo) x @ drop (Suc hi) ?vs"
    proof -
      have "?mid[hi := x] = take lo ?vs @ replicate (hi - lo) x @ (drop hi ?vs)[0 := x]"
        using lo len by (simp add: list_update_append)
      also have "(drop hi ?vs)[0 := x] = x # drop (Suc hi) ?vs"
        using len by (metis Cons_nth_drop_Suc list_update_code(2))
      also have "replicate (hi - lo) x @ x # drop (Suc hi) ?vs = replicate (Suc hi - lo) x @ drop (Suc hi) ?vs"
        using lo by (simp add: Suc_diff_le replicate_append_same)
      finally show ?thesis .
    qed
    have ih: "for_loop [lo ..< hi] (\<lambda>i h. value_init h a i x) h = Some (h(a \<mapsto> n\<lparr>values := ?mid\<rparr>))"
      by (rule Suc.IH[OF lo]) (use len in simp)
    have "for_loop [lo ..< Suc hi] (\<lambda>i h. value_init h a i x) h =
          value_init (h(a \<mapsto> n\<lparr>values := ?mid\<rparr>)) a hi x"
      by (simp only: split for_loop_snoc ih option.case)
    also have "\<dots> = Some (h(a \<mapsto> n\<lparr>values := ?mid[hi := x]\<rparr>))"
      using len lo by (simp add: value_init_def)
    finally show ?thesis by (simp only: upd)
  qed
  then show ?case .
qed

text \<open>Exchanging the first \<open>m\<close> slots of two different nodes.\<close>

lemma swap_loop:
  assumes "a \<noteq> x" "h a = Some na" "h x = Some nx"
  shows "m \<le> length (values na) \<Longrightarrow> m \<le> length (values nx) \<Longrightarrow>
   for_loop [0 ..< m] (\<lambda>i h. value_swap h a i x i) h =
     Some (h(a \<mapsto> na\<lparr>values := take m (values nx) @ drop m (values na)\<rparr>,
             x \<mapsto> nx\<lparr>values := take m (values na) @ drop m (values nx)\<rparr>))"
proof (induction m)
  case 0
  have "h(a \<mapsto> na\<lparr>values := take 0 (values nx) @ drop 0 (values na)\<rparr>,
          x \<mapsto> nx\<lparr>values := take 0 (values na) @ drop 0 (values nx)\<rparr>) = h"
    using assms by (auto simp: fun_eq_iff)
  then show "for_loop [0 ..< 0] (\<lambda>i h. value_swap h a i x i) h =
     Some (h(a \<mapsto> na\<lparr>values := take 0 (values nx) @ drop 0 (values na)\<rparr>,
             x \<mapsto> nx\<lparr>values := take 0 (values na) @ drop 0 (values nx)\<rparr>))"
    by (simp only: upt_0 for_loop.simps)
next
  case (Suc m)
  let ?va = "values na" and ?vx = "values nx"
  let ?h = "h(a \<mapsto> na\<lparr>values := take m ?vx @ drop m ?va\<rparr>,
              x \<mapsto> nx\<lparr>values := take m ?va @ drop m ?vx\<rparr>)"
  have la: "m < length ?va" and lx: "m < length ?vx" using Suc.prems by simp_all
  have ih: "for_loop [0 ..< m] (\<lambda>i h. value_swap h a i x i) h = Some ?h"
    by (rule Suc.IH) (use la lx in simp_all)
  have ua: "(take m ?vx @ drop m ?va)[m := (take m ?va @ drop m ?vx) ! m] = take (Suc m) ?vx @ drop (Suc m) ?va"
    using la lx by (simp add: list_update_append nth_append take_Suc_conv_app_nth)
       (metis Cons_nth_drop_Suc list_update_code(2))
  have ux: "(take m ?va @ drop m ?vx)[m := (take m ?vx @ drop m ?va) ! m] = take (Suc m) ?va @ drop (Suc m) ?vx"
    using la lx by (simp add: list_update_append nth_append take_Suc_conv_app_nth)
       (metis Cons_nth_drop_Suc list_update_code(2))
  have "for_loop [0 ..< Suc m] (\<lambda>i h. value_swap h a i x i) h = value_swap ?h a m x m"
    by (simp only: upt_Suc_append[OF le0] for_loop_snoc ih option.case)
  also have "\<dots> = Some (?h(a \<mapsto> na\<lparr>values := (take m ?vx @ drop m ?va)[m := (take m ?va @ drop m ?vx) ! m]\<rparr>,
                              x \<mapsto> nx\<lparr>values := (take m ?va @ drop m ?vx)[m := (take m ?vx @ drop m ?va) ! m]\<rparr>))"
    using assms(1) la lx by (subst value_swap_two_nodes[where na="na\<lparr>values := take m ?vx @ drop m ?va\<rparr>"
        and nx="nx\<lparr>values := take m ?va @ drop m ?vx\<rparr>"]) auto
  also have "\<dots> = Some (h(a \<mapsto> na\<lparr>values := take (Suc m) ?vx @ drop (Suc m) ?va\<rparr>,
             x \<mapsto> nx\<lparr>values := take (Suc m) ?va @ drop (Suc m) ?vx\<rparr>))"
    using assms(1) by (simp only: ua ux) (simp add: fun_upd_twist)
  finally show ?case .
qed

text \<open>Moving the value in slot \<open>c\<close> down to slot \<open>i\<close>, as \<open>insert_value\<close> does.\<close>

lemma shift_loop:
  assumes "h a = Some n"
  shows "i \<le> c \<Longrightarrow> c < length (values n) \<Longrightarrow>
   for_loop (rev [i + 1 ..< c + 1]) (\<lambda>j h. value_swap h a j a (j - 1)) h =
     Some (h(a \<mapsto> n\<lparr>values := take i (values n) @ values n ! c # take (c - i) (drop i (values n))
                                   @ drop (c + 1) (values n)\<rparr>))"
  using assms
proof (induction "c - i" arbitrary: c h n)
  case 0
  then have [simp]: "c = i" by simp
  have "take i (values n) @ values n ! c # take (c - i) (drop i (values n)) @ drop (c + 1) (values n)
          = values n"
    using 0 by (simp add: id_take_nth_drop[symmetric])
  then have "h(a \<mapsto> n\<lparr>values := take i (values n) @ values n ! c # take (c - i) (drop i (values n))
                @ drop (c + 1) (values n)\<rparr>) = h"
    using 0 by (simp add: heap_upd_same)
  moreover have "for_loop (rev [i + 1 ..< c + 1]) (\<lambda>j h. value_swap h a j a (j - 1)) h = Some h"
    by simp
  ultimately show "for_loop (rev [i + 1 ..< c + 1]) (\<lambda>j h. value_swap h a j a (j - 1)) h =
     Some (h(a \<mapsto> n\<lparr>values := take i (values n) @ values n ! c # take (c - i) (drop i (values n))
                                   @ drop (c + 1) (values n)\<rparr>))"
    by (simp only:)
next
  case (Suc d)
  let ?vs = "values n"
  have ci: "i < c" using Suc by simp
  then obtain c' where c': "c = Suc c'" by (cases c) auto
  have ic': "i \<le> c'" using ci c' by simp
  have rv: "rev [i + 1 ..< c + 1] = c # rev [i + 1 ..< c' + 1]"
    using ci c' by simp
  let ?vs1 = "?vs[c := ?vs ! c', c' := ?vs ! c]"
  let ?h1 = "h(a \<mapsto> n\<lparr>values := ?vs1\<rparr>)"
  have s1: "value_swap h a c a (c - 1) = Some ?h1"
    using Suc.prems c' by (simp add: value_swap_same_node)
  have ih: "for_loop (rev [i + 1 ..< c' + 1]) (\<lambda>j h. value_swap h a j a (j - 1)) ?h1 =
     Some (?h1(a \<mapsto> (n\<lparr>values := ?vs1\<rparr>)\<lparr>values := take i (values (n\<lparr>values := ?vs1\<rparr>))
               @ values (n\<lparr>values := ?vs1\<rparr>) ! c'
               # take (c' - i) (drop i (values (n\<lparr>values := ?vs1\<rparr>)))
               @ drop (c' + 1) (values (n\<lparr>values := ?vs1\<rparr>))\<rparr>))"
    by (rule Suc.hyps(1)) (use Suc.hyps(2) Suc.prems c' ic' in simp_all)
  have lst: "take i ?vs1 @ ?vs1 ! c' # take (c' - i) (drop i ?vs1) @ drop (c' + 1) ?vs1
       = take i ?vs @ ?vs ! c # take (c - i) (drop i ?vs) @ drop (c + 1) ?vs"
  proof -
    have l: "c < length ?vs" "c' < length ?vs" using Suc.prems c' by simp_all
    have a1: "take i ?vs1 = take i ?vs" using ic' c' by simp
    have a2: "?vs1 ! c' = ?vs ! c" using l by simp
    have a3: "take (c' - i) (drop i ?vs1) = take (c' - i) (drop i ?vs)"
      using ic' c' by (simp add: drop_take[symmetric] take_drop)
    have a4: "drop (c' + 1) ?vs1 = ?vs ! c' # drop (c + 1) ?vs"
    proof -
      have "drop (c' + 1) ?vs1 = (drop c ?vs)[0 := ?vs ! c']" using c' l by (simp add: drop_update_swap)
      also have "\<dots> = ?vs ! c' # drop (c + 1) ?vs" using l 
        by (metis Cons_nth_drop_Suc Suc_eq_plus1 list_update_code(2))
      finally show ?thesis .
    qed
    have a5: "take (c - i) (drop i ?vs) = take (c' - i) (drop i ?vs) @ [?vs ! c']"
    proof -
      have "c - i = Suc (c' - i)" using c' ic' by simp
      moreover have "c' - i < length (drop i ?vs)" using l ic' c' by simp
      moreover have "drop i ?vs ! (c' - i) = ?vs ! c'" using ic' l by simp
      ultimately show ?thesis by (simp add: take_Suc_conv_app_nth)
    qed
    show ?thesis by (simp only: a1 a2 a3 a4 a5) simp
  qed
  have fin: "?h1(a \<mapsto> (n\<lparr>values := ?vs1\<rparr>)\<lparr>values := take i (values (n\<lparr>values := ?vs1\<rparr>))
               @ values (n\<lparr>values := ?vs1\<rparr>) ! c'
               # take (c' - i) (drop i (values (n\<lparr>values := ?vs1\<rparr>)))
               @ drop (c' + 1) (values (n\<lparr>values := ?vs1\<rparr>))\<rparr>)
      = h(a \<mapsto> n\<lparr>values := take i ?vs @ ?vs ! c # take (c - i) (drop i ?vs) @ drop (c + 1) ?vs\<rparr>)"
    using lst by simp
  show "for_loop (rev [i + 1 ..< c + 1]) (\<lambda>j h. value_swap h a j a (j - 1)) h =
     Some (h(a \<mapsto> n\<lparr>values := take i ?vs @ ?vs ! c # take (c - i) (drop i ?vs) @ drop (c + 1) ?vs\<rparr>))"
    by (simp only: rv for_loop.simps s1 option.case ih fin)
qed


lemma destroy_loop:
  "h a = Some n \<Longrightarrow> \<forall>i \<in> set js. i < length (values n) \<Longrightarrow>
   for_loop js (\<lambda>i h. value_destroy h a i) h = Some h"
  by (induction js) (auto simp: value_destroy_def)

text \<open>\<open>insert_value\<close> on a leaf with a free slot.\<close>

lemma insert_value_leaf:
  assumes "h a = Some n" "leaf n" "count n < length (values n)" "i \<le> count n"
  shows "insert_value h a i x =
     Some (h(a \<mapsto> n\<lparr>values := take i (values n) @ x # take (count n - i) (drop i (values n))
                                   @ drop (count n + 1) (values n),
                       count := count n + 1\<rparr>))"
proof -
  let ?vs = "values n" and ?c = "count n"
  let ?n1 = "n\<lparr>values := ?vs[?c := x]\<rparr>"
  let ?h1 = "h(a \<mapsto> ?n1)"
  have s1: "value_init h a ?c x = Some ?h1" using assms by (simp add: value_init_node)
  have h1a: "?h1 a = Some ?n1" by simp
  let ?vs2 = "take i (values ?n1) @ values ?n1 ! ?c # take (?c - i) (drop i (values ?n1))
                @ drop (?c + 1) (values ?n1)"
  have s2: "for_loop (rev [i + 1 ..< ?c + 1]) (\<lambda>j h. value_swap h a j a (j - 1)) ?h1 =
        Some (?h1(a \<mapsto> ?n1\<lparr>values := ?vs2\<rparr>))"
    by (rule shift_loop[where h="?h1" and n="?n1"]) (use assms in simp_all)
  have vs2: "?vs2 = take i ?vs @ x # take (?c - i) (drop i ?vs) @ drop (?c + 1) ?vs"
    using assms by (simp add: drop_take[symmetric] take_drop)
  have s3: "set_count (?h1(a \<mapsto> ?n1\<lparr>values := ?vs2\<rparr>)) a (?c + 1) =
        Some (h(a \<mapsto> n\<lparr>values := take i ?vs @ x # take (?c - i) (drop i ?vs) @ drop (?c + 1) ?vs,
                          count := ?c + 1\<rparr>))"
    using vs2 by (simp add: set_count_def update_node_def)
  have ni: "\<not> count n < i" using assms(4) by simp
  show ?thesis
    unfolding insert_value_def using assms(1,2)
    by (simp only: option.case ni if_False s1 s2 s3 bind.bind_lunit) simp
qed


text \<open>\<open>swap\<close> of an empty leaf with a leaf that holds values.\<close>

lemma swap_empty_leaf:
  assumes "a \<noteq> r" "h a = Some na" "h r = Some n" "leaf na" "count na = 0"
    and "count n \<le> length (values na)" "count n \<le> length (values n)" "leaf n"
  shows "swap P h a r =
     Some (h(a \<mapsto> na\<lparr>values := take (count n) (values n)
                                     @ drop (count n) (values na),
                        count := count n\<rparr>,
             r \<mapsto> n\<lparr>values := replicate (count n) (default_value P)
                                    @ drop (count n) (values n),
                       count := 0\<rparr>))"
proof -
  let ?m = "count n" and ?dv = "default_value P"
  let ?V = "take 0 (values na) @ replicate (?m - 0) ?dv @ drop ?m (values na)"
  let ?na1 = "na\<lparr>values := ?V\<rparr>"
  let ?h1 = "h(a \<mapsto> ?na1)"
  have s1: "for_loop [count na ..< ?m] (\<lambda>i h. value_init h a i ?dv) h = Some ?h1"
    unfolding assms(5) by (rule init_loop[where h=h and n=na]) (use assms in simp_all)
  have s2: "for_loop [?m ..< count na] (\<lambda>i h. value_init h r i ?dv) ?h1 = Some ?h1"
    by (simp add: assms(5))
  have h1a: "?h1 a = Some ?na1" by simp
  have h1r: "?h1 r = Some n" using assms by simp
  let ?na2 = "?na1\<lparr>values := take ?m (values n) @ drop ?m (values ?na1)\<rparr>"
  let ?n2 = "n\<lparr>values := take ?m (values ?na1) @ drop ?m (values n)\<rparr>"
  let ?h3 = "?h1(a \<mapsto> ?na2, r \<mapsto> ?n2)"
  have s3: "for_loop [0 ..< max (count na) ?m] (\<lambda>i h. value_swap h a i r i) ?h1 = Some ?h3"
    unfolding assms(5) max_0L
    by (rule swap_loop[where h="?h1" and na="?na1" and nx=n]) (use assms in simp_all)
  have h3r: "?h3 r = Some ?n2" by simp
  have h3a: "?h3 a = Some ?na2" using assms(1) by simp
  have s4: "for_loop [count na ..< ?m] (\<lambda>i h. value_destroy h r i) ?h3 = Some ?h3"
    by (rule destroy_loop[where h="?h3" and n="?n2"]) (use assms in simp_all)
  have s5: "for_loop [?m ..< count na] (\<lambda>i h. value_destroy h a i) ?h3 = Some ?h3"
    by (simp add: assms(5))
  have "swap P h a r =
          set_count ?h3 a ?m \<bind> (\<lambda>h7. set_count h7 r (count na))"
    unfolding swap_def
    by (simp only: assms(2,3,4,8) prod.case option.case s1 s2 s3 s4 s5 bind.bind_lunit
          simp_thms if_False)
  then show ?thesis
    using assms by (simp add: set_count_def update_node_def fun_upd_twist)
qed


section \<open>A tree that is a single leaf\<close>

lemma is_root_leaf_root:
  "h a = Some n \<Longrightarrow> leaf n \<Longrightarrow> parent n = Some a \<Longrightarrow> is_root h a = Some True"
  by (simp add: is_root_def)

lemma increment_leaf_root:
  assumes "h a = Some n" "leaf n" "parent n = Some a" "p < count n"
  shows "increment h (Iterator (Some a) (int p)) = Some (Iterator (Some a) (int (p + 1)))"
proof (cases "p + 1 < count n")
  case True
  then show ?thesis using assms by (simp add: increment_def Iterator_def)
next
  case False
  then have e: "p + 1 = count n" using assms(4) by simp
  have up: "increment_up h a (int p + 1) = Some (a, int p + 1)"
    using assms e by (subst increment_up.simps) (simp add: is_root_leaf_root)
  have "increment_slow h \<lparr>node = Some a, pos = int p + 1\<rparr> = Some \<lparr>node = Some a, pos = int p + 1\<rparr>"
    using assms e by (simp add: increment_slow_def up Iterator_def)
  then show ?thesis using assms e by (simp add: increment_def Iterator_def)
qed

lemma visit_leaf_root:
  assumes "h a = Some n" "leaf n" "parent n = Some a" "count n \<le> length (values n)"
  shows "p \<le> count n \<Longrightarrow>
     visit h (Iterator (Some a) (int p)) (Iterator (Some a) (int (count n))) acc =
       Some (rev acc @ drop p (take (count n) (values n)))"
proof (induction "count n - p" arbitrary: p acc)
  case 0
  then have "p = count n" by simp
  then show ?case by (subst visit.simps) simp
next
  case (Suc d)
  then have lt: "p < count n" by simp
  have ne: "Iterator (Some a) (int p) \<noteq> Iterator (Some a) (int (count n))"
    using lt by (simp add: Iterator_def)
  have inc: "increment h (Iterator (Some a) (int p)) = Some (Iterator (Some a) (int (p + 1)))"
    using assms(1,2,3) lt by (rule increment_leaf_root)
  have ih: "visit h (Iterator (Some a) (int (p + 1))) (Iterator (Some a) (int (count n)))
              (values n ! p # acc) =
            Some (rev (values n ! p # acc) @ drop (p + 1) (take (count n) (values n)))"
    using Suc.hyps(1)[of "p + 1" "values n ! p # acc"] Suc.hyps(2) lt by simp
  have "visit h (Iterator (Some a) (int p)) (Iterator (Some a) (int (count n))) acc =
        visit h (Iterator (Some a) (int (p + 1))) (Iterator (Some a) (int (count n)))
              (values n ! p # acc)"
    using ne assms lt inc by (subst visit.simps) (simp add: Iterator_def)
  also have "\<dots> = Some (rev acc @ drop p (take (count n) (values n)))"
    using ih lt assms(4) by (simp add: Cons_nth_drop_Suc[symmetric])
  finally show ?case .
qed

lemma contents_leaf_root:
  assumes "root t = Some a" "nodes t a = Some n" "leaf n" "parent n = Some a"
    and "count n \<le> length (values n)"
  shows "contents t = Some (take (count n) (values n))"
proof -
  have b: "tree_begin t = Some (Iterator (Some a) (int 0))"
    using assms by (simp add: tree_begin_def tree_leftmost_def)
  have e: "tree_end t = Some (Iterator (Some a) (int (count n)))"
    using assms by (simp add: tree_end_def tree_rightmost_def)
  have "visit (nodes t) (Iterator (Some a) (int 0)) (Iterator (Some a) (int (count n))) [] =
        Some (rev [] @ drop 0 (take (count n) (values n)))"
    by (rule visit_leaf_root[where h="nodes t" and n=n]) (use assms in simp_all)
  then show ?thesis by (simp add: contents_def b e)
qed


text \<open>
  The small-root branch of \<open>internal_insert\<close>, up to the read of the new value. Let the
  root be a leaf that is full and smaller than a full node, and let the allocator hand
  out an address that differs from the address of the root. Then the new leaf root has
  taken over the values, the storage of the old root is released, and what is left to do
  is to read the reference and to insert the value into the new root.
\<close>

lemma small_root_grow:
  assumes rt: "root t = Some r" and nr: "nodes t r = Some n" and lf: "leaf n"
    and full: "count n = max_count n" and len: "length (values n) = max_count n"
    and pos: "0 < max_count n" and small: "max_count n < kNodeValues P"
    and fresh: "next_addr t \<noteq> r"
  shows "internal_insert P t (Iterator (Some r) (int p)) ref =
     read_ref ((nodes t)(next_addr t \<mapsto>
         (init_leaf P (Some (next_addr t)) (min (kNodeValues P) (2 * max_count n)))
           \<lparr>values := take (count n) (values n) @ drop (count n)
               (values (init_leaf P (Some (next_addr t)) (min (kNodeValues P) (2 * max_count n)))),
            count := count n\<rparr>, r := None)) ref \<bind>
     (\<lambda>x. insert_value ((nodes t)(next_addr t \<mapsto>
         (init_leaf P (Some (next_addr t)) (min (kNodeValues P) (2 * max_count n)))
           \<lparr>values := take (count n) (values n) @ drop (count n)
               (values (init_leaf P (Some (next_addr t)) (min (kNodeValues P) (2 * max_count n)))),
            count := count n\<rparr>, r := None)) (next_addr t) p x \<bind>
       (\<lambda>h'. Some (t\<lparr>next_addr := next_addr t + 1, root := Some (next_addr t), nodes := h'\<rparr>,
                   Iterator (Some (next_addr t)) (int p))))"
proof -
  let ?m = "max_count n" and ?dv = "default_value P" and ?a = "next_addr t"
  let ?mc = "min (kNodeValues P) (2 * ?m)"
  let ?vs = "values n"
  have mc: "?m < ?mc" using pos small by simp
  let ?n0 = "init_leaf P (Some ?a) ?mc"
  let ?t1 = "t\<lparr>nodes := (nodes t)(?a \<mapsto> ?n0), next_addr := ?a + 1\<rparr>"
  have new: "new_leaf_root_node P t ?mc = (?t1, ?a)"
    by (simp add: new_leaf_root_node_def allocate_def)
  let ?n1 = "?n0\<lparr>values := take (count n) ?vs @ drop (count n) (values ?n0), count := count n\<rparr>"
  let ?nr = "n\<lparr>values := replicate (count n) ?dv @ drop (count n) ?vs, count := 0\<rparr>"
  let ?h2 = "(nodes ?t1)(?a \<mapsto> ?n1, r \<mapsto> ?nr)"
  have sw: "swap P (nodes ?t1) ?a r = Some ?h2"
    by (rule swap_empty_leaf[where na="?n0" and n=n])
       (use fresh nr full len mc lf in \<open>simp_all add: init_leaf_def\<close>)
  let ?h3 = "(nodes t)(?a \<mapsto> ?n1, r := None)"
  have del: "delete_leaf_node (?t1\<lparr>nodes := ?h2\<rparr>) r = Some (?t1\<lparr>nodes := ?h3\<rparr>)"
    using fresh by (simp add: delete_leaf_node_def delete_node_def)
  let ?t2 = "?t1\<lparr>nodes := ?h3\<rparr>"
  let ?rest = "\<lambda>t2. read_ref (nodes (t2\<lparr>root := Some ?a\<rparr>)) ref \<bind>
                 (\<lambda>x. insert_value (nodes (t2\<lparr>root := Some ?a\<rparr>)) ?a p x \<bind>
                 (\<lambda>h'. Some (t2\<lparr>root := Some ?a, nodes := h'\<rparr>, Iterator (Some ?a) (int p))))"
  have "internal_insert P t (Iterator (Some r) (int p)) ref =
          swap P (nodes ?t1) ?a r \<bind> (\<lambda>h. delete_leaf_node (?t1\<lparr>nodes := h\<rparr>) r \<bind> ?rest)"
    unfolding internal_insert_def
    using rt nr lf full small
    by (simp add: Iterator_def new)
  also have "\<dots> = delete_leaf_node (?t1\<lparr>nodes := ?h2\<rparr>) r \<bind> ?rest"
    by (simp only: sw bind.bind_lunit)
  also have "\<dots> = ?rest ?t2"
    by (simp only: del bind.bind_lunit)
  also have "\<dots> = read_ref ?h3 ref \<bind>
     (\<lambda>x. insert_value ?h3 ?a p x \<bind>
       (\<lambda>h'. Some (t\<lparr>next_addr := ?a + 1, root := Some ?a, nodes := h'\<rparr>,
                   Iterator (Some ?a) (int p))))"
    by simp
  finally show ?thesis .
qed

text \<open>
  When the new value is an object outside the node store, \<open>internal_insert\<close> returns;
  the new root is a leaf at the address the allocator handed out, of capacity
  \<open>min(kNodeValues, 2 * max_count)\<close>, that holds the previous values with the new value
  at position \<open>p\<close>; the storage of the old root is released; no other node changes; and
  iterating over the new tree visits the previous values and the new one.
\<close>

lemma small_root_grows_on_insert:
  assumes rt: "root t = Some r" and nr: "nodes t r = Some n" and lf: "leaf n"
    and par: "parent n = Some r"
    and full: "count n = max_count n" and len: "length (values n) = max_count n"
    and pos: "0 < max_count n" and small: "max_count n < kNodeValues P"
    and fresh: "next_addr t \<noteq> r" and p: "p \<le> count n"
  shows "\<exists>t'. internal_insert P t (Iterator (Some r) (int p)) (Outside v) =
            Some (t', Iterator (Some (next_addr t)) (int p))
         \<and> root t' = Some (next_addr t)
         \<and> nodes t' r = None
         \<and> nodes t' (next_addr t) =
             Some \<lparr>leaf = True, position = 0,
                   max_count = min (kNodeValues P) (2 * max_count n),
                   count = count n + 1, parent = Some (next_addr t),
                   values = take p (values n) @ v # drop p (values n)
                     @ replicate (min (kNodeValues P) (2 * max_count n) - max_count n - 1)
                         (default_value P),
                   children = [], rightmost = None, size = 0\<rparr>
         \<and> (\<forall>a. a \<noteq> r \<and> a \<noteq> next_addr t \<longrightarrow> nodes t' a = nodes t a)
         \<and> contents t = Some (values n)
         \<and> contents t' = Some (take p (values n) @ v # drop p (values n))"
proof -
  let ?m = "max_count n" and ?dv = "default_value P" and ?a = "next_addr t"
  let ?mc = "min (kNodeValues P) (2 * ?m)"
  let ?vs = "values n"
  have mc: "?m < ?mc" using pos small by simp
  let ?n0 = "init_leaf P (Some ?a) ?mc"
  let ?n1 = "?n0\<lparr>values := take (count n) ?vs @ drop (count n) (values ?n0), count := count n\<rparr>"
  let ?h3 = "(nodes t)(?a \<mapsto> ?n1, r := None)"
  have h3a: "?h3 ?a = Some ?n1" using fresh by simp
  let ?vals = "take p ?vs @ v # drop p ?vs @ replicate (?mc - ?m - 1) ?dv"
  let ?n2 = "\<lparr>leaf = True, position = 0, max_count = ?mc, count = count n + 1,
              parent = Some ?a, values = ?vals, children = [], rightmost = None, size = 0\<rparr>"
  have lst: "take p (values ?n1) @ v # take (count ?n1 - p) (drop p (values ?n1))
               @ drop (count ?n1 + 1) (values ?n1) = ?vals"
  proof -
    have "take p (values ?n1) = take p ?vs" using p full len by (simp add: init_leaf_def)
    moreover have "take (count ?n1 - p) (drop p (values ?n1)) = drop p ?vs"
      using p full len by (simp add: init_leaf_def)
    moreover have "drop (count ?n1 + 1) (values ?n1) = replicate (?mc - ?m - 1) ?dv"
      using full len by (simp add: init_leaf_def)
    ultimately show ?thesis by (simp only:)
  qed
  have iv: "insert_value ?h3 ?a p v = Some (?h3(?a \<mapsto> ?n2))"
  proof -
    have "insert_value ?h3 ?a p v =
      Some (?h3(?a \<mapsto> ?n1\<lparr>values := take p (values ?n1) @ v # take (count ?n1 - p) (drop p (values ?n1))
                                   @ drop (count ?n1 + 1) (values ?n1),
                       count := count ?n1 + 1\<rparr>))"
      by (rule insert_value_leaf[where n="?n1"])
         (use fresh p full len mc in \<open>simp_all add: init_leaf_def\<close>)
    also have "?n1\<lparr>values := take p (values ?n1) @ v # take (count ?n1 - p) (drop p (values ?n1))
                                   @ drop (count ?n1 + 1) (values ?n1),
                       count := count ?n1 + 1\<rparr> = ?n2"
      by (simp only: lst) (simp add: init_leaf_def)
    finally show ?thesis .
  qed
  let ?t' = "t\<lparr>next_addr := ?a + 1, root := Some ?a, nodes := ?h3(?a \<mapsto> ?n2)\<rparr>"
  have rd: "read_ref ?h3 (Outside v) = Some v" by (simp add: read_ref_def)
  have "internal_insert P t (Iterator (Some r) (int p)) (Outside v) =
     read_ref ?h3 (Outside v) \<bind>
     (\<lambda>x. insert_value ?h3 ?a p x \<bind>
       (\<lambda>h'. Some (t\<lparr>next_addr := ?a + 1, root := Some ?a, nodes := h'\<rparr>,
                   Iterator (Some ?a) (int p))))"
    by (rule small_root_grow[OF rt nr lf full len pos small fresh])
  also have "\<dots> = insert_value ?h3 ?a p v \<bind>
       (\<lambda>h'. Some (t\<lparr>next_addr := ?a + 1, root := Some ?a, nodes := h'\<rparr>,
                   Iterator (Some ?a) (int p)))"
    by (simp only: rd bind.bind_lunit)
  also have "\<dots> = Some (?t', Iterator (Some ?a) (int p))"
    by (simp only: iv bind.bind_lunit)
  finally have ins: "internal_insert P t (Iterator (Some r) (int p)) (Outside v) =
               Some (?t', Iterator (Some ?a) (int p))" .
  have c0: "contents t = Some ?vs"
    using contents_leaf_root[OF rt nr lf par] full len by simp
  have c1: "contents ?t' = Some (take (count ?n2) (values ?n2))"
    by (rule contents_leaf_root[where a="?a"]) (use full len mc p in simp_all)
  have c2: "take (count ?n2) (values ?n2) = take p ?vs @ v # drop p ?vs"
  proof -
    let ?X = "take p ?vs @ v # drop p ?vs"
    have l: "count ?n2 = length ?X" using p full len by simp
    have v2: "values ?n2 = ?X @ replicate (?mc - ?m - 1) ?dv" by simp
    have e: "take (length ?X) (?X @ replicate (?mc - ?m - 1) ?dv) = ?X"
      by (rule take_length_append)
    show ?thesis by (simp only: l v2 e)
  qed
  show ?thesis
    using ins c0 c1 c2 fresh by (intro exI[of _ ?t']) simp
qed

text \<open>
  When the new value is a reference to a slot of the old root, the read comes after the
  release of the old root, and \<open>internal_insert\<close> has no result.
\<close>

lemma small_root_insert_of_root_slot:
  assumes rt: "root t = Some r" and nr: "nodes t r = Some n" and lf: "leaf n"
    and full: "count n = max_count n" and len: "length (values n) = max_count n"
    and pos: "0 < max_count n" and small: "max_count n < kNodeValues P"
    and fresh: "next_addr t \<noteq> r"
  shows "internal_insert P t (Iterator (Some r) (int p)) (Slot r i) = None"
proof -
  let ?a = "next_addr t"
  let ?mc = "min (kNodeValues P) (2 * max_count n)"
  let ?n0 = "init_leaf P (Some ?a) ?mc"
  let ?n1 = "?n0\<lparr>values := take (count n) (values n) @ drop (count n) (values ?n0),
                count := count n\<rparr>"
  let ?h3 = "(nodes t)(?a \<mapsto> ?n1, r := None)"
  have rd: "read_ref ?h3 (Slot r i) = None" by (simp add: read_ref_def)
  have "internal_insert P t (Iterator (Some r) (int p)) (Slot r i) =
     read_ref ?h3 (Slot r i) \<bind>
     (\<lambda>x. insert_value ?h3 ?a p x \<bind>
       (\<lambda>h'. Some (t\<lparr>next_addr := ?a + 1, root := Some ?a, nodes := h'\<rparr>,
                   Iterator (Some ?a) (int p))))"
    by (rule small_root_grow[OF rt nr lf full len pos small fresh])
  also have "\<dots> = None" by (simp only: rd bind.bind_lzero)
  finally show ?thesis .
qed

lemma one_five_value:
  "one_five = Some
     \<lparr>key_comp = (), root = Some 0,
      nodes = (\<lambda>_. None)
        (0 \<mapsto> \<lparr>leaf = True, position = 0, max_count = 1, count = 1, parent = Some 0,
                 values = [5], children = [], rightmost = None, size = 0\<rparr>),
      next_addr = 1\<rparr>"
  unfolding one_five_def
  by (simp add: node_eval iterator_eval tree_eval small_set_params_fields
        kNodeValues_small_set_params eval_nat_numeral)

text \<open>
  Claim C7 against the code. The tree is a multiset with nodes of four values that holds
  the value 5 in a leaf root of capacity one, so the root is the only node, is full, and
  is smaller than a full node. Inserting a copy of 5 installs a root of capacity two that
  holds 5 and 5. Inserting the stored value itself, \<open>insert(*begin())\<close>, passes a
  reference to slot 0 of the root: the value is swapped out of the old root and the old
  root is released before the reference is read, so the read of the new value goes to
  released storage and the insertion has no result.
\<close>

theorem aliased_insert_reads_released_root:
  "one_five \<noteq> None
   \<and> root (the one_five) = Some 0
   \<and> nodes (the one_five) 0 =
       Some \<lparr>leaf = True, position = 0, max_count = 1, count = 1, parent = Some 0,
             values = [5], children = [], rightmost = None, size = 0\<rparr>
   \<and> kNodeValues small_set_params = 4
   \<and> tree_begin (the one_five) = Some (Iterator (Some 0) 0)
   \<and> read_ref (nodes (the one_five)) (Slot 0 0) = Some 5
   \<and> insert_multi small_set_params (the one_five) 5 (Outside 5) \<bind> (\<lambda>r. contents (fst r))
       = Some [5, 5]
   \<and> insert_multi small_set_params (the one_five) 5 (Slot 0 0) = None"
  by (simp add: one_five_value node_eval iterator_eval tree_eval small_set_params_fields
        kNodeValues_small_set_params eval_nat_numeral)

end
